(* ===== verification/Prelude.thy ===== *)
theory Prelude
  imports Main "HOL-Library.Sublist"
begin

text \<open>
  Shared vocabulary of the development: the Python built-ins the repository's code
  calls on strings (\<open>str.lower\<close>, \<open>str.strip\<close>, the \<open>in\<close> operator,
  \<open>str.join\<close>, slicing), and a small effect type for code that raises exceptions and
  performs calls on outside services.  Python strings are modelled as \<open>string\<close>
  (\<open>char list\<close>); an Isabelle \<open>char\<close> is one of the 256 code points
  U+0000..U+00FF, so the model covers exactly the Latin-1 range of Python's \<open>str\<close>
  and every built-in below is the Unicode definition restricted to that range.
\<close>

named_theorems py_simps "rewrite rules for the modelled Python built-ins"

type_synonym exn = string \<comment> \<open>an exception, represented by \<open>str(e)\<close>\<close>

text \<open>
  Code points whose \<open>str.lower()\<close> differs from themselves within Latin-1:
  A..Z, U+00C0..U+00D6 and U+00D8..U+00DE; each maps to the code point 32 above it.
\<close>

definition py_upper_code :: "nat \<Rightarrow> bool" where
  "py_upper_code n \<longleftrightarrow> (65 \<le> n \<and> n \<le> 90) \<or> (192 \<le> n \<and> n \<le> 214) \<or> (216 \<le> n \<and> n \<le> 222)"

definition py_lower_char :: "char \<Rightarrow> char" where
  "py_lower_char c = (if py_upper_code (of_char c) then char_of (of_char c + (32::nat)) else c)"

definition py_lower :: "string \<Rightarrow> string" where
  "py_lower s = map py_lower_char s"

text \<open>
  \<open>str.isspace\<close> / the \<open>\s\<close> class of \<open>re\<close> on \<open>str\<close> patterns
  (\<open>Py_UNICODE_ISSPACE\<close>) within Latin-1: TAB..CR, the four separators
  U+001C..U+001F, SPACE, NEL (U+0085) and NBSP (U+00A0).
\<close>

definition py_isspace :: "char \<Rightarrow> bool" where
  "py_isspace c \<longleftrightarrow> of_char c \<in> ({9, 10, 11, 12, 13, 28, 29, 30, 31, 32, 133, 160} :: nat set)"

text \<open>\<open>s.strip(chars)\<close> removes the longest prefix and the longest suffix of
  characters in \<open>chars\<close>; \<open>s.strip()\<close> does so for white space.\<close>

definition py_strip_by :: "(char \<Rightarrow> bool) \<Rightarrow> string \<Rightarrow> string" where
  "py_strip_by P s = rev (dropWhile P (rev (dropWhile P s)))"

definition py_strip :: "string \<Rightarrow> string" where
  "py_strip s = py_strip_by py_isspace s"

definition py_strip_chars :: "string \<Rightarrow> string \<Rightarrow> string" where
  "py_strip_chars cs s = py_strip_by (\<lambda>c. c \<in> set cs) s"

text \<open>\<open>k in s\<close> on strings is the substring test; \<open>sublist\<close> of
  HOL-Library.Sublist is contiguous and executable (\<open>sublist_code\<close>).\<close>

definition py_contains :: "string \<Rightarrow> string \<Rightarrow> bool" where
  "py_contains k s \<longleftrightarrow> sublist k s"

fun py_join :: "string \<Rightarrow> string list \<Rightarrow> string" where
  "py_join sep [] = []"
| "py_join sep [x] = x"
| "py_join sep (x # y # xs) = x @ sep @ py_join sep (y # xs)"

text \<open>
  A computation of the source that may raise and that performs calls observed by the
  outside world: it reads the trace of calls made so far and returns either the
  raised exception (\<open>Inl\<close>) or its value (\<open>Inr\<close>), with the trace extended by
  the calls it made.  \<open>ebind\<close> is Python's sequencing (an exception skips the
  rest), \<open>ecatch\<close> a \<open>try ... except Exception as e\<close> whose handler returns a value.
\<close>

type_synonym ('ev, 'a) eff = "'ev list \<Rightarrow> (exn + 'a) \<times> 'ev list"

definition ereturn :: "'a \<Rightarrow> ('ev, 'a) eff" where
  "ereturn a tr = (Inr a, tr)"

definition eraise :: "exn \<Rightarrow> ('ev, 'a) eff" where
  "eraise e tr = (Inl e, tr)"

definition ebind :: "('ev, 'a) eff \<Rightarrow> ('a \<Rightarrow> ('ev, 'b) eff) \<Rightarrow> ('ev, 'b) eff" where
  "ebind m f tr = (case m tr of (Inl e, tr') \<Rightarrow> (Inl e, tr') | (Inr a, tr') \<Rightarrow> f a tr')"

definition ecatch :: "('ev, 'a) eff \<Rightarrow> (exn \<Rightarrow> 'a) \<Rightarrow> 'ev list \<Rightarrow> 'a \<times> 'ev list" where
  "ecatch m h tr = (case m tr of (Inl e, tr') \<Rightarrow> (h e, tr') | (Inr a, tr') \<Rightarrow> (a, tr'))"

section \<open>Characters: \<open>str.lower\<close> and \<open>str.isspace\<close>\<close>

lemma char_of_eq_iff_mod [simp, py_simps]: "char_of (n::nat) = c \<longleftrightarrow> n mod 256 = of_char c"
  by (metis of_char_mod_256 of_char_of char_of_char)

lemma eq_char_of_iff_mod [simp, py_simps]: "c = char_of (n::nat) \<longleftrightarrow> of_char c = n mod 256"
  by (metis char_of_eq_iff_mod)

lemma of_char_py_lower_char:
  "of_char (py_lower_char c) =
     (if py_upper_code (of_char c) then of_char c + 32 else (of_char c :: nat))"
  by (auto simp: py_lower_char_def py_upper_code_def)

lemma py_lower_char_eq_iff:
  "py_lower_char c = d \<longleftrightarrow>
     (if py_upper_code (of_char c) then of_char c + 32 = (of_char d :: nat) else c = d)"
  by (metis of_char_eq_iff of_char_py_lower_char py_lower_char_def)

lemma py_lower_char_idem [simp]: "py_lower_char (py_lower_char c) = py_lower_char c"
  by (auto simp: py_lower_char_def py_upper_code_def)

lemma length_py_lower [simp]: "length (py_lower s) = length s"
  by (simp add: py_lower_def)

lemma py_lower_simps [simp, py_simps]:
  "py_lower [] = []"
  "py_lower (c # s) = py_lower_char c # py_lower s"
  "py_lower (s @ t) = py_lower s @ py_lower t"
  by (simp_all add: py_lower_def)

lemma py_lower_idem [simp]: "py_lower (py_lower s) = py_lower s"
  by (induction s) auto

text \<open>A character that is no lower-case image (code points outside 97..122 and
  224..254) is found by \<open>lower()\<close> only in itself.\<close>

lemma py_lower_char_eq_uncased:
  assumes "\<not> py_upper_code (of_char d)"
    and "\<not> (97 \<le> (of_char d :: nat) \<and> of_char d \<le> (122::nat))"
    and "\<not> (224 \<le> (of_char d :: nat) \<and> of_char d \<le> (254::nat))"
  shows "py_lower_char c = d \<longleftrightarrow> c = d"
  using assms by (auto simp: py_lower_char_eq_iff py_upper_code_def)

lemma py_isspace_newline [simp]: "py_isspace CHR ''\<newline>''"
  by (simp add: py_isspace_def)

lemma all_le_Suc_split: "(\<forall>k \<le> Suc n. P k) \<longleftrightarrow> P 0 \<and> (\<forall>k \<le> n. P (Suc k))"
  by (metis Suc_le_mono le0 not0_implies_Suc)

section \<open>\<open>str.strip\<close>\<close>

lemma py_strip_by_sublist: "sublist (py_strip_by P s) s"
proof -
  have "sublist (rev (dropWhile P (rev (dropWhile P s)))) (rev (rev (dropWhile P s)))"
    by (simp only: sublist_rev) simp
  then have "sublist (py_strip_by P s) (dropWhile P s)"
    by (simp add: py_strip_by_def)
  then show ?thesis by (rule sublist_order.order_trans) simp
qed

lemma py_strip_by_set: "set (py_strip_by P s) \<subseteq> set s"
  using py_strip_by_sublist set_mono_sublist by blast

lemma py_strip_by_hd:
  assumes ne: "py_strip_by P s \<noteq> []"
  shows "\<not> P (hd (py_strip_by P s))"
proof -
  define a where "a = dropWhile P s"
  define b where "b = dropWhile P (rev a)"
  have strip: "py_strip_by P s = rev b" by (simp add: py_strip_by_def a_def b_def)
  have "rev a = takeWhile P (rev a) @ b" by (simp add: b_def)
  then have a_eq: "a = rev b @ rev (takeWhile P (rev a))"
    by (metis rev_append rev_rev_ident)
  have "rev b \<noteq> []" using ne strip by simp
  then have "hd a = hd (rev b)" using a_eq by (metis hd_append2)
  moreover have "a \<noteq> []" using a_eq \<open>rev b \<noteq> []\<close> by (metis Nil_is_append_conv)
  then have "\<not> P (hd a)" by (simp add: a_def hd_dropWhile)
  ultimately show ?thesis using strip by simp
qed

lemma py_strip_by_last:
  assumes ne: "py_strip_by P s \<noteq> []"
  shows "\<not> P (last (py_strip_by P s))"
proof -
  have "dropWhile P (rev (dropWhile P s)) \<noteq> []" using ne by (simp add: py_strip_by_def)
  then have "\<not> P (hd (dropWhile P (rev (dropWhile P s))))" by (rule hd_dropWhile)
  then show ?thesis using ne by (simp add: py_strip_by_def last_rev)
qed

lemma py_strip_by_id:
  assumes none: "\<forall>c \<in> set s. \<not> P c"
  shows "py_strip_by P s = s"
proof -
  have "dropWhile P s = s"
    using none by (cases s) simp_all
  moreover have "dropWhile P (rev s) = rev s"
    using none by (auto simp: dropWhile_eq_self_iff hd_rev)
  ultimately show ?thesis by (simp add: py_strip_by_def)
qed

lemma py_strip_by_ends:
  assumes "s = [] \<or> (\<not> P (hd s) \<and> \<not> P (last s))"
  shows "py_strip_by P s = s"
proof (cases "s = []")
  case True
  then show ?thesis by (simp add: py_strip_by_def)
next
  case False
  with assms have "\<not> P (hd s)" "\<not> P (hd (rev s))" by (simp_all add: hd_rev)
  moreover have "dropWhile P s = s" using False \<open>\<not> P (hd s)\<close> by (cases s) simp_all
  moreover have "dropWhile P (rev s) = rev s" using \<open>\<not> P (hd (rev s))\<close> by (cases "rev s") simp_all
  ultimately show ?thesis by (simp add: py_strip_by_def)
qed

lemma py_strip_by_snoc:
  assumes "P c" and "s = [] \<or> (\<not> P (hd s) \<and> \<not> P (last s))"
  shows "py_strip_by P (s @ [c]) = s"
proof (cases "s = []")
  case True
  then show ?thesis using assms(1) by (simp add: py_strip_by_def)
next
  case False
  with assms(2) have h: "\<not> P (hd s)" and l: "\<not> P (hd (rev s))" by (simp_all add: hd_rev)
  have "dropWhile P (s @ [c]) = s @ [c]" using False h by (cases s) simp_all
  moreover have "dropWhile P (rev (s @ [c])) = rev s" using assms(1) False l by (cases "rev s") simp_all
  ultimately show ?thesis by (simp add: py_strip_by_def)
qed

section \<open>Substrings, \<open>in\<close>, \<open>str.join\<close>\<close>

lemma length_py_join:
  "length (py_join sep xs) = sum_list (map length xs) + length sep * (length xs - 1)"
  by (induction sep xs rule: py_join.induct) auto

lemma py_contains_append [intro]:
  "py_contains k (a @ k @ b)"
  by (simp add: py_contains_def)

section \<open>Code that raises and calls out\<close>

lemma ereturn_ebind [simp]: "ebind (ereturn a) f = f a"
  by (simp add: fun_eq_iff ereturn_def ebind_def)

lemma eraise_ebind [simp]: "ebind (eraise e) f = eraise e"
  by (simp add: fun_eq_iff eraise_def ebind_def)

lemma ebind_apply [simp]:
  "ebind m f tr = (case m tr of (Inl e, tr') \<Rightarrow> (Inl e, tr') | (Inr a, tr') \<Rightarrow> f a tr')"
  by (simp add: ebind_def)

lemma ecatch_apply [simp]:
  "ecatch m h tr = (case m tr of (Inl e, tr') \<Rightarrow> (h e, tr') | (Inr a, tr') \<Rightarrow> (a, tr'))"
  by (simp add: ecatch_def)

lemma ereturn_apply [simp]: "ereturn a tr = (Inr a, tr)"
  by (simp add: ereturn_def)

lemma eraise_apply [simp]: "eraise e tr = (Inl e, tr)"
  by (simp add: eraise_def)

end
