(* ===== verification/Regex.thy ===== *)
theory Regex
  imports Prelude
begin

text \<open>
  Python's \<open>re.search\<close> (the backtracking engine \<open>sre\<close>) for the fragment of
  regular expressions the repository uses: literals, optional literals \<open>c?\<close>,
  greedy and lazy repetition of a character class (\<open>\s*\<close>, \<open>.*?\<close>), one
  capturing group and the multi-line anchor \<open>$\<close>, with or without
  \<open>re.IGNORECASE\<close>.  \<open>rx_bt\<close> gives every match from a position in the order
  the backtracking engine tries them; \<open>rx_first\<close> is the engine itself, which
  stops at the first success; \<open>re_search\<close> tries the start positions from left
  to right.
\<close>

datatype rx_item =
    RLit char                    \<comment> \<open>a literal character\<close>
  | ROpt char                    \<comment> \<open>\<open>c?\<close>: greedy optional literal\<close>
  | RStar "char \<Rightarrow> bool"        \<comment> \<open>\<open>C*\<close>: greedy repetition of a class\<close>
  | RLazy "char \<Rightarrow> bool"        \<comment> \<open>\<open>C*?\<close>: lazy repetition of a class\<close>
  | RGroupOpen                   \<comment> \<open>\<open>(\<close> of group 1\<close>
  | RGroupClose                  \<comment> \<open>\<open>)\<close> of group 1\<close>
  | REol                         \<comment> \<open>\<open>$\<close> under \<open>re.MULTILINE\<close>\<close>

text \<open>Under \<open>re.IGNORECASE\<close> a literal matches every character with the same
  lower-case form.\<close>

definition lit_match :: "bool \<Rightarrow> char \<Rightarrow> char \<Rightarrow> bool" where
  "lit_match ci c d \<longleftrightarrow> (if ci then py_lower_char d = py_lower_char c else d = c)"

text \<open>A result is the end position of the match and the span of group 1, if it
  participated.  Arguments: the flag, the items still to match, the position, the
  input from that position on, the position where group 1 was opened, the span
  captured so far.\<close>

type_synonym rx_result = "nat \<times> (nat \<times> nat) option"

fun rx_bt ::
  "bool \<Rightarrow> rx_item list \<Rightarrow> nat \<Rightarrow> string \<Rightarrow> nat \<Rightarrow> (nat \<times> nat) option \<Rightarrow> rx_result list" where
  "rx_bt ci [] p s g cap = [(p, cap)]"
| "rx_bt ci (RLit c # rs) p s g cap =
     (case s of [] \<Rightarrow> [] | d # s' \<Rightarrow> if lit_match ci c d then rx_bt ci rs (Suc p) s' g cap else [])"
| "rx_bt ci (ROpt c # rs) p s g cap =
     (case s of [] \<Rightarrow> [] | d # s' \<Rightarrow> if lit_match ci c d then rx_bt ci rs (Suc p) s' g cap else [])
     @ rx_bt ci rs p s g cap"
| "rx_bt ci (RStar P # rs) p s g cap =
     concat (map (\<lambda>k. rx_bt ci rs (p + k) (drop k s) g cap) (rev [0..<Suc (length (takeWhile P s))]))"
| "rx_bt ci (RLazy P # rs) p s g cap =
     concat (map (\<lambda>k. rx_bt ci rs (p + k) (drop k s) g cap) [0..<Suc (length (takeWhile P s))])"
| "rx_bt ci (RGroupOpen # rs) p s g cap = rx_bt ci rs p s p cap"
| "rx_bt ci (RGroupClose # rs) p s g cap = rx_bt ci rs p s g (Some (g, p))"
| "rx_bt ci (REol # rs) p s g cap =
     (if s = [] \<or> hd s = CHR ''\<newline>'' then rx_bt ci rs p s g cap else [])"

primrec first_match :: "'a list \<Rightarrow> 'a option" where
  "first_match [] = None"
| "first_match (x # xs) = Some x"

definition or_else :: "'a option \<Rightarrow> 'a option \<Rightarrow> 'a option" where
  "or_else a b = (case a of None \<Rightarrow> b | Some r \<Rightarrow> Some r)"

primrec try_counts :: "(nat \<Rightarrow> 'a option) \<Rightarrow> nat list \<Rightarrow> 'a option" where
  "try_counts f [] = None"
| "try_counts f (k # ks) = or_else (f k) (try_counts f ks)"

fun rx_first ::
  "bool \<Rightarrow> rx_item list \<Rightarrow> nat \<Rightarrow> string \<Rightarrow> nat \<Rightarrow> (nat \<times> nat) option \<Rightarrow> rx_result option" where
  "rx_first ci [] p s g cap = Some (p, cap)"
| "rx_first ci (RLit c # rs) p s g cap =
     (case s of [] \<Rightarrow> None | d # s' \<Rightarrow> if lit_match ci c d then rx_first ci rs (Suc p) s' g cap else None)"
| "rx_first ci (ROpt c # rs) p s g cap =
     or_else (case s of [] \<Rightarrow> None | d # s' \<Rightarrow> if lit_match ci c d then rx_first ci rs (Suc p) s' g cap else None)
       (rx_first ci rs p s g cap)"
| "rx_first ci (RStar P # rs) p s g cap =
     try_counts (\<lambda>k. rx_first ci rs (p + k) (drop k s) g cap) (rev [0..<Suc (length (takeWhile P s))])"
| "rx_first ci (RLazy P # rs) p s g cap =
     try_counts (\<lambda>k. rx_first ci rs (p + k) (drop k s) g cap) [0..<Suc (length (takeWhile P s))]"
| "rx_first ci (RGroupOpen # rs) p s g cap = rx_first ci rs p s p cap"
| "rx_first ci (RGroupClose # rs) p s g cap = rx_first ci rs p s g (Some (g, p))"
| "rx_first ci (REol # rs) p s g cap =
     (if s = [] \<or> hd s = CHR ''\<newline>'' then rx_first ci rs p s g cap else None)"

type_synonym re_match = "nat \<times> rx_result" \<comment> \<open>start, end, span of group 1\<close>

fun re_search_from :: "bool \<Rightarrow> rx_item list \<Rightarrow> nat \<Rightarrow> string \<Rightarrow> re_match option" where
  "re_search_from ci rs i [] = map_option (Pair i) (rx_first ci rs i [] 0 None)"
| "re_search_from ci rs i (c # cs) =
     or_else (map_option (Pair i) (rx_first ci rs i (c # cs) 0 None)) (re_search_from ci rs (Suc i) cs)"

definition re_search :: "bool \<Rightarrow> rx_item list \<Rightarrow> string \<Rightarrow> re_match option" where
  "re_search ci rs s = re_search_from ci rs 0 s"

text \<open>\<open>m.group(1)\<close>: \<open>None\<close> when the group did not participate.\<close>

definition group1 :: "string \<Rightarrow> re_match \<Rightarrow> string option" where
  "group1 s m = (case snd (snd m) of None \<Rightarrow> None | Some (b, e) \<Rightarrow> Some (take (e - b) (drop b s)))"

text \<open>A run of literals matches a prefix of the input character by character.\<close>

fun lits_match :: "bool \<Rightarrow> string \<Rightarrow> string \<Rightarrow> bool" where
  "lits_match ci [] s = True"
| "lits_match ci (c # w) [] = False"
| "lits_match ci (c # w) (d # s) = (lit_match ci c d \<and> lits_match ci w s)"

fun is_group_item :: "rx_item \<Rightarrow> bool" where
  "is_group_item RGroupOpen = True"
| "is_group_item RGroupClose = True"
| "is_group_item _ = False"

section \<open>The engine computes the first match of the backtracking order\<close>

lemma or_else_simps [simp]:
  "or_else None b = b" "or_else (Some r) b = Some r"
  by (simp_all add: or_else_def)

lemma first_match_append: "first_match (xs @ ys) = or_else (first_match xs) (first_match ys)"
  by (cases xs) simp_all

lemma first_match_None_iff [simp]: "first_match xs = None \<longleftrightarrow> xs = []"
  by (cases xs) simp_all

lemma try_counts_first_match:
  "try_counts (\<lambda>k. first_match (f k)) ks = first_match (concat (map f ks))"
  by (induction ks) (simp_all add: first_match_append)

lemma try_counts_cong:
  "(\<And>k. k \<in> set ks \<Longrightarrow> f k = f' k) \<Longrightarrow> try_counts f ks = try_counts f' ks"
  by (induction ks) simp_all

lemma rx_first_eq_first_match:
  "rx_first ci rs p s g cap = first_match (rx_bt ci rs p s g cap)"
proof (induction ci rs p s g cap rule: rx_bt.induct)
  case (2 ci c rs p s g cap)
  then show ?case by (simp split: list.split)
next
  case (3 ci c rs p s g cap)
  then show ?case by (simp add: first_match_append split: list.split)
next
  case (4 ci P rs p s g cap)
  have "try_counts (\<lambda>k. rx_first ci rs (p + k) (drop k s) g cap) (rev [0..<Suc (length (takeWhile P s))]) =
        try_counts (\<lambda>k. first_match (rx_bt ci rs (p + k) (drop k s) g cap)) (rev [0..<Suc (length (takeWhile P s))])"
    by (rule try_counts_cong) (rule "4.IH")
  then show ?case by (simp only: rx_first.simps rx_bt.simps try_counts_first_match)
next
  case (5 ci P rs p s g cap)
  have "try_counts (\<lambda>k. rx_first ci rs (p + k) (drop k s) g cap) ([0..<Suc (length (takeWhile P s))]) =
        try_counts (\<lambda>k. first_match (rx_bt ci rs (p + k) (drop k s) g cap)) ([0..<Suc (length (takeWhile P s))])"
    by (rule try_counts_cong) (rule "5.IH")
  then show ?case by (simp only: rx_first.simps rx_bt.simps try_counts_first_match)
qed simp_all

section \<open>Structural lemmas of the backtracking order\<close>

lemma lits_match_length: "lits_match ci w s \<Longrightarrow> length w \<le> length s"
  by (induction ci w s rule: lits_match.induct) auto

lemma lits_match_append:
  "lits_match ci w (s @ t) \<longleftrightarrow> (if length w \<le> length s then lits_match ci w s
     else lits_match ci (take (length s) w) s \<and> lits_match ci (drop (length s) w) t)"
  by (induction ci w s rule: lits_match.induct) auto

lemma lits_match_ci_prefix:
  "lits_match True w s \<longleftrightarrow> prefix (py_lower w) (py_lower s)"
  by (induction True w s rule: lits_match.induct) (auto simp: lit_match_def eq_commute)

lemma rx_bt_lits:
  "rx_bt ci (map RLit w @ rs) p s g cap =
     (if lits_match ci w s then rx_bt ci rs (p + length w) (drop (length w) s) g cap else [])"
  by (induction ci w s arbitrary: p rule: lits_match.induct) (simp_all split: list.split)

text \<open>Sufficient conditions for a match to exist, one per item: the alternatives
  listed by the backtracking order include the one named.\<close>

lemma concat_map_eq_Nil_iff: "concat (map f ks) = [] \<longleftrightarrow> (\<forall>k \<in> set ks. f k = [])"
  by (induction ks) auto

lemma rx_bt_RStar_ne_iff:
  "rx_bt ci (RStar P # rs) p s g cap \<noteq> [] \<longleftrightarrow>
     (\<exists>k \<le> length (takeWhile P s). rx_bt ci rs (p + k) (drop k s) g cap \<noteq> [])"
  by (simp only: rx_bt.simps concat_map_eq_Nil_iff set_rev set_upt) (auto simp: less_Suc_eq_le)

lemma rx_bt_RLazy_ne_iff:
  "rx_bt ci (RLazy P # rs) p s g cap \<noteq> [] \<longleftrightarrow>
     (\<exists>k \<le> length (takeWhile P s). rx_bt ci rs (p + k) (drop k s) g cap \<noteq> [])"
  by (simp only: rx_bt.simps concat_map_eq_Nil_iff set_upt) (auto simp: less_Suc_eq_le)

lemma rx_bt_ne_RStar:
  "k \<le> length (takeWhile P s) \<Longrightarrow> rx_bt ci rs (p + k) (drop k s) g cap \<noteq> [] \<Longrightarrow>
   rx_bt ci (RStar P # rs) p s g cap \<noteq> []"
  using rx_bt_RStar_ne_iff by blast

lemma rx_bt_ne_RLazy:
  "k \<le> length (takeWhile P s) \<Longrightarrow> rx_bt ci rs (p + k) (drop k s) g cap \<noteq> [] \<Longrightarrow>
   rx_bt ci (RLazy P # rs) p s g cap \<noteq> []"
  using rx_bt_RLazy_ne_iff by blast

lemma rx_bt_ROpt_miss:
  "s = [] \<or> \<not> lit_match ci c (hd s) \<Longrightarrow> rx_bt ci (ROpt c # rs) p s g cap = rx_bt ci rs p s g cap"
  by (cases s) auto

lemma rx_bt_ROpt_hit:
  "lit_match ci c d \<Longrightarrow>
   rx_bt ci (ROpt c # rs) p (d # s) g cap = rx_bt ci rs (Suc p) s g cap @ rx_bt ci rs p (d # s) g cap"
  by simp

lemma rx_bt_ROpt_skip_ne:
  "rx_bt ci rs p s g cap \<noteq> [] \<Longrightarrow> rx_bt ci (ROpt c # rs) p s g cap \<noteq> []"
  by simp

text \<open>The search tries every start position: it fails exactly when no position
  admits a match.\<close>

lemma re_search_from_None_iff:
  "re_search_from ci rs i s = None \<longleftrightarrow>
     (\<forall>k \<le> length s. rx_bt ci rs (i + k) (drop k s) 0 None = [])"
proof (induction s arbitrary: i)
  case Nil
  then show ?case by (simp add: rx_first_eq_first_match)
next
  case (Cons c cs)
  have "(\<forall>k \<le> length (c # cs). rx_bt ci rs (i + k) (drop k (c # cs)) 0 None = []) \<longleftrightarrow>
        rx_bt ci rs i (c # cs) 0 None = [] \<and>
        (\<forall>k \<le> length cs. rx_bt ci rs (Suc i + k) (drop k cs) 0 None = [])"
    by (auto simp: all_le_Suc_split)
  with Cons.IH[of "Suc i"] show ?case
    by (cases "rx_bt ci rs i (c # cs) 0 None") (simp_all add: rx_first_eq_first_match)
qed

lemma re_search_None_iff:
  "re_search ci rs s = None \<longleftrightarrow> (\<forall>k \<le> length s. rx_bt ci rs k (drop k s) 0 None = [])"
  by (simp add: re_search_def re_search_from_None_iff)

text \<open>Characters without case variants match under \<open>re.IGNORECASE\<close> only
  themselves.\<close>

lemma lit_match_uncased:
  assumes "\<not> py_upper_code (of_char c)"
    and "\<not> (97 \<le> (of_char c :: nat) \<and> of_char c \<le> (122::nat))"
    and "\<not> (224 \<le> (of_char c :: nat) \<and> of_char c \<le> (254::nat))"
  shows "lit_match ci c d \<longleftrightarrow> d = c"
proof -
  have "py_lower_char c = c" using assms(1) by (simp add: py_lower_char_def)
  then have "lit_match ci c d \<longleftrightarrow> (if ci then py_lower_char d = c else d = c)"
    by (simp add: lit_match_def)
  then show ?thesis using py_lower_char_eq_uncased [OF assms] by simp
qed

lemma lit_match_punct [simp]:
  "lit_match ci CHR ''['' d \<longleftrightarrow> d = CHR ''[''"
  "lit_match ci CHR '']'' d \<longleftrightarrow> d = CHR '']''"
  "lit_match ci CHR 0x22 d \<longleftrightarrow> d = CHR 0x22"
  "lit_match ci CHR 0x27 d \<longleftrightarrow> d = CHR 0x27"
  by (simp_all add: lit_match_uncased py_upper_code_def)

text \<open>The first match of a lazy repetition is at the least count that succeeds.\<close>

lemma first_match_concat_upt:
  assumes "\<forall>k < m. f k = []" and "m < n"
  shows "first_match (concat (map f [0..<n])) = first_match (f m @ concat (map f [Suc m..<n]))"
proof -
  have split: "[0..<n] = [0..<m] @ m # [Suc m..<n]"
    using assms(2) upt_add_eq_append [of 0 m "n - m"] upt_conv_Cons [of m n] by simp
  have e: "concat (map f [0..<m]) = []" using assms(1) by (simp add: concat_map_eq_Nil_iff)
  have "concat (map f [0..<n]) = f m @ concat (map f [Suc m..<n])"
    by (simp only: split map_append list.map(2) concat_append concat.simps(2) e append_Nil)
  then show ?thesis by simp
qed

section \<open>What a match consumes and captures\<close>

text \<open>Items outside the group consume a prefix of the input and leave the capture
  as it is.\<close>

lemma rx_bt_RLazy_first:
  assumes "m \<le> length (takeWhile P s)"
    and "\<forall>k < m. rx_bt ci rs (p + k) (drop k s) g cap = []"
    and "first_match (rx_bt ci rs (p + m) (drop m s) g cap) = Some r"
  shows "first_match (rx_bt ci (RLazy P # rs) p s g cap) = Some r"
proof -
  let ?f = "\<lambda>k. rx_bt ci rs (p + k) (drop k s) g cap"
  have h: "first_match (concat (map ?f [0..<Suc (length (takeWhile P s))])) =
        first_match (?f m @ concat (map ?f [Suc m..<Suc (length (takeWhile P s))]))"
    using assms(1,2) by (intro first_match_concat_upt) simp_all
  show ?thesis unfolding rx_bt.simps(5) h first_match_append using assms(3) by (simp add: or_else_def)
qed

lemma rx_bt_RStar_mem:
  "r \<in> set (rx_bt ci (RStar P # rs) p s g cap) \<longleftrightarrow>
     (\<exists>k \<le> length (takeWhile P s). r \<in> set (rx_bt ci rs (p + k) (drop k s) g cap))"
  by (simp only: rx_bt.simps set_concat set_map set_rev set_upt) (auto simp: less_Suc_eq_le)

lemma rx_bt_RLazy_mem:
  "r \<in> set (rx_bt ci (RLazy P # rs) p s g cap) \<longleftrightarrow>
     (\<exists>k \<le> length (takeWhile P s). r \<in> set (rx_bt ci rs (p + k) (drop k s) g cap))"
  by (simp only: rx_bt.simps set_concat set_map set_upt) (auto simp: less_Suc_eq_le)

lemma rx_bt_step_mem:
  assumes "r \<in> set (rx_bt ci (x # rs) p s g cap)" and "\<not> is_group_item x"
  shows "\<exists>j \<le> length s. r \<in> set (rx_bt ci rs (p + j) (drop j s) g cap)"
proof (cases x)
  case (RLit c)
  with assms show ?thesis
    by (cases s) (auto split: if_splits intro!: exI [of _ 1])
next
  case (ROpt c)
  with assms show ?thesis
    by (cases s) (auto split: if_splits intro: exI [of _ 0] exI [of _ 1])
next
  case (RStar P)
  from assms(1) obtain k where "k \<le> length (takeWhile P s)"
    and "r \<in> set (rx_bt ci rs (p + k) (drop k s) g cap)" unfolding RStar rx_bt_RStar_mem by blast
  then show ?thesis using length_takeWhile_le order_trans by blast
next
  case (RLazy P)
  from assms(1) obtain k where "k \<le> length (takeWhile P s)"
    and "r \<in> set (rx_bt ci rs (p + k) (drop k s) g cap)" unfolding RLazy rx_bt_RLazy_mem by blast
  then show ?thesis using length_takeWhile_le order_trans by blast
next
  case REol
  with assms show ?thesis by (auto split: if_splits intro: exI [of _ 0])
qed (use assms in simp_all)

lemma rx_bt_prefix_items:
  assumes "r \<in> set (rx_bt ci (pre @ rest) p s g cap)" and "\<forall>x \<in> set pre. \<not> is_group_item x"
  shows "\<exists>k \<le> length s. r \<in> set (rx_bt ci rest (p + k) (drop k s) g cap)"
  using assms
proof (induction pre arbitrary: p s)
  case Nil
  then show ?case by (intro exI [of _ 0]) simp
next
  case (Cons x pre)
  have "r \<in> set (rx_bt ci (x # (pre @ rest)) p s g cap)"
    using Cons.prems(1) by (simp only: append_Cons)
  from rx_bt_step_mem [OF this] Cons.prems(2) obtain j where j: "j \<le> length s"
    and r: "r \<in> set (rx_bt ci (pre @ rest) (p + j) (drop j s) g cap)"
    by auto
  from Cons.IH [OF r] Cons.prems(2) obtain k where
    "k \<le> length (drop j s)" and "r \<in> set (rx_bt ci rest (p + j + k) (drop k (drop j s)) g cap)"
    by auto
  moreover have "drop k (drop j s) = drop (j + k) s" by (simp add: add.commute)
  moreover have "j + k \<le> length s" using j \<open>k \<le> length (drop j s)\<close> by simp
  ultimately show ?case by (metis add.assoc)
qed

lemma rx_bt_no_group_cap:
  "r \<in> set (rx_bt ci rs p s g cap) \<Longrightarrow> \<forall>x \<in> set rs. \<not> is_group_item x \<Longrightarrow> snd r = cap"
  using rx_bt_prefix_items [of r ci rs "[]" p s g cap] by auto

text \<open>A group around a lazy repetition captures a run of characters of its class.\<close>

lemma rx_bt_lazy_group:
  assumes "r \<in> set (rx_bt ci (RGroupOpen # RLazy P # RGroupClose # post) p s g cap)"
    and "\<forall>x \<in> set post. \<not> is_group_item x"
  shows "\<exists>k \<le> length (takeWhile P s). snd r = Some (p, p + k)"
proof -
  have "r \<in> set (rx_bt ci (RLazy P # RGroupClose # post) p s p cap)"
    using assms(1) by (simp only: rx_bt.simps(6))
  then obtain k where k: "k \<le> length (takeWhile P s)"
    and "r \<in> set (rx_bt ci (RGroupClose # post) (p + k) (drop k s) p cap)"
    unfolding rx_bt_RLazy_mem by blast
  then have "r \<in> set (rx_bt ci post (p + k) (drop k s) p (Some (p, p + k)))"
    by (simp only: rx_bt.simps(7))
  then have "snd r = Some (p, p + k)" using rx_bt_no_group_cap assms(2) by blast
  with k show ?thesis by blast
qed

lemma re_search_from_Some:
  "re_search_from ci rs i s = Some (j, r) \<Longrightarrow>
     i \<le> j \<and> j \<le> i + length s \<and> first_match (rx_bt ci rs j (drop (j - i) s) 0 None) = Some r \<and>
     (\<forall>j'. i \<le> j' \<and> j' < j \<longrightarrow> rx_bt ci rs j' (drop (j' - i) s) 0 None = [])"
proof (induction s arbitrary: i)
  case Nil
  then show ?case by (cases "rx_bt ci rs i [] 0 None") (auto simp: rx_first_eq_first_match)
next
  case (Cons c cs)
  show ?case
  proof (cases "rx_bt ci rs i (c # cs) 0 None")
    case Nil
    with Cons.prems have "re_search_from ci rs (Suc i) cs = Some (j, r)"
      by (simp add: rx_first_eq_first_match)
    from Cons.IH [OF this] have le: "Suc i \<le> j" "j \<le> Suc i + length cs"
      and r: "first_match (rx_bt ci rs j (drop (j - Suc i) cs) 0 None) = Some r"
      and before: "\<forall>j'. Suc i \<le> j' \<and> j' < j \<longrightarrow> rx_bt ci rs j' (drop (j' - Suc i) cs) 0 None = []"
      by auto
    have drop_eq: "drop (j' - i) (c # cs) = drop (j' - Suc i) cs" if "Suc i \<le> j'" for j'
      using that Suc_diff_Suc [of i j'] by (metis Suc_le_lessD drop_Suc_Cons)
    have "\<forall>j'. i \<le> j' \<and> j' < j \<longrightarrow> rx_bt ci rs j' (drop (j' - i) (c # cs)) 0 None = []"
    proof (intro allI impI)
      fix j' assume j': "i \<le> j' \<and> j' < j"
      show "rx_bt ci rs j' (drop (j' - i) (c # cs)) 0 None = []"
      proof (cases "j' = i")
        case True
        with Nil show ?thesis by simp
      next
        case False
        with j' before drop_eq show ?thesis by simp
      qed
    qed
    with le r drop_eq show ?thesis by simp
  next
    case (Cons x xs)
    with Cons.prems show ?thesis by (auto simp: rx_first_eq_first_match)
  qed
qed

lemma re_search_Some:
  "re_search ci rs s = Some (j, r) \<Longrightarrow> j \<le> length s \<and> r \<in> set (rx_bt ci rs j (drop j s) 0 None)"
  using re_search_from_Some [of ci rs 0 s j r]
  by (cases "rx_bt ci rs j (drop j s) 0 None") (simp_all add: re_search_def)

end
