(* ===== verification/Directive.thy ===== *)
theory Directive
  imports Regex
begin

text \<open>
  The search directive of \<open>src/backend/agent.py\<close>: the pattern of line 49,
  \<^verbatim>\<open>re.search(r"Action:\s*Search\s*\[?\"?'?(.*?)\]?\"?'?$", response_1,
          re.IGNORECASE | re.MULTILINE)\<close>
  and the normalisation of the captured term on line 52,
  \<^verbatim>\<open>match.group(1).strip().strip('"').strip("'").strip("[]")\<close>.
  The lemmas say exactly when the pattern matches (a case-insensitive
  \<open>action:\<close>, white space, \<open>search\<close> anywhere in the response), what it
  captures on the protocol's own output format, and what the normalised term can be.
\<close>

definition directive_tail :: "rx_item list" where
  "directive_tail =
     [RStar py_isspace, ROpt CHR ''['', ROpt CHR 0x22, ROpt CHR 0x27,
      RGroupOpen, RLazy (\<lambda>c. c \<noteq> CHR ''\<newline>''), RGroupClose,
      ROpt CHR '']'', ROpt CHR 0x22, ROpt CHR 0x27, REol]"

definition directive_rx :: "rx_item list" where
  "directive_rx = map RLit ''Action:'' @ RStar py_isspace # map RLit ''Search'' @ directive_tail"

definition directive_match :: "string \<Rightarrow> re_match option" where
  "directive_match response = re_search True directive_rx response"

definition search_term_of :: "string \<Rightarrow> string" where
  "search_term_of g =
     py_strip_chars ''[]'' (py_strip_chars [CHR 0x27] (py_strip_chars [CHR 0x22] (py_strip g)))"

text \<open>The declarative reading: a directive starts where the lower-cased text reads
  \<open>action:\<close>, then any white space (line breaks included), then \<open>search\<close>.\<close>

definition directive_head :: "string \<Rightarrow> bool" where
  "directive_head w \<longleftrightarrow>
     prefix ''action:'' (py_lower w) \<and> prefix ''search'' (py_lower (dropWhile py_isspace (drop 7 w)))"

fun has_directive :: "string \<Rightarrow> bool" where
  "has_directive [] = directive_head []"
| "has_directive (c # cs) = (directive_head (c # cs) \<or> has_directive cs)"

text \<open>A term of the canonical directive \<open>Action: Search [t]\<close>: no line break,
  no closing bracket and no quotes.\<close>

definition plain_term :: "string \<Rightarrow> bool" where
  "plain_term t \<longleftrightarrow> (\<forall>c \<in> set t. c \<noteq> CHR ''\<newline>'' \<and> c \<noteq> CHR '']'' \<and> c \<noteq> CHR 0x22 \<and> c \<noteq> CHR 0x27)"

definition line_end :: "string \<Rightarrow> bool" where
  "line_end rest \<longleftrightarrow> rest = [] \<or> hd rest = CHR ''\<newline>''"

text \<open>The search term of lines 49--52 as the controller obtains it: \<open>None\<close> when
  the pattern does not match.\<close>

definition parsed_search_term :: "string \<Rightarrow> string option" where
  "parsed_search_term response =
     (case directive_match response of
        None \<Rightarrow> None
      | Some m \<Rightarrow> map_option search_term_of (group1 response m))"

text \<open>A term the normalisation of line 52 leaves alone: on one line, without closing
  brackets or quotes, and neither starting nor ending with white space or an opening
  bracket.\<close>

definition clean_term :: "string \<Rightarrow> bool" where
  "clean_term t \<longleftrightarrow> plain_term t \<and>
     (case t of [] \<Rightarrow> True
      | c # _ \<Rightarrow> \<not> py_isspace c \<and> c \<noteq> CHR ''['' \<and> \<not> py_isspace (last t) \<and> last t \<noteq> CHR ''['')"

section \<open>When the pattern matches\<close>

lemma has_directive_iff: "has_directive s \<longleftrightarrow> (\<exists>k \<le> length s. directive_head (drop k s))"
proof (induction s)
  case (Cons c cs)
  have "(\<exists>k \<le> Suc (length cs). directive_head (drop k (c # cs))) \<longleftrightarrow>
        directive_head (c # cs) \<or> (\<exists>k \<le> length cs. directive_head (drop k cs))"
    using all_le_Suc_split [of "length cs" "\<lambda>k. \<not> directive_head (drop k (c # cs))"] by auto
  with Cons.IH show ?case by simp
qed simp

lemma directive_tail_ne: "rx_bt ci directive_tail p s g cap \<noteq> []"
proof -
  let ?nl = "\<lambda>c. c \<noteq> CHR ''\<newline>''"
  let ?k = "length (takeWhile ?nl s)"
  have rest: "drop ?k s = [] \<or> hd (drop ?k s) = CHR ''\<newline>''"
    using hd_dropWhile [of ?nl s] by (auto simp: dropWhile_eq_drop [symmetric])
  have "rx_bt ci [RLazy ?nl, RGroupClose, ROpt CHR '']'', ROpt CHR 0x22, ROpt CHR 0x27, REol]
          p s p cap \<noteq> []"
    by (rule rx_bt_ne_RLazy [where k = ?k]) (use rest in auto)
  then show ?thesis
    unfolding directive_tail_def
    by (intro rx_bt_ne_RStar [where k = 0] rx_bt_ROpt_skip_ne) simp_all
qed

lemma lit_match_S_not_space: "lit_match True CHR ''S'' c \<Longrightarrow> \<not> py_isspace c"
  by (auto simp: lit_match_def py_lower_char_eq_iff py_upper_code_def py_isspace_def py_lower_char_def)

lemma search_after_spaces:
  assumes "k \<le> length (takeWhile py_isspace u)" and "lits_match True ''Search'' (drop k u)"
  shows "k = length (takeWhile py_isspace u)"
proof (rule ccontr)
  assume "k \<noteq> length (takeWhile py_isspace u)"
  with assms(1) have lt: "k < length (takeWhile py_isspace u)" by simp
  then have "py_isspace (u ! k)"
    using nth_mem set_takeWhileD takeWhile_nth by metis
  moreover have "k < length u" using lt length_takeWhile_le less_le_trans by blast
  then have "drop k u = u ! k # drop (Suc k) u" by (simp add: Cons_nth_drop_Suc)
  with assms(2) have "lit_match True CHR ''S'' (u ! k)" by simp
  ultimately show False using lit_match_S_not_space by blast
qed

lemma directive_rx_ne_iff: "rx_bt True directive_rx p w 0 None \<noteq> [] \<longleftrightarrow> directive_head w"
proof -
  let ?u = "drop 7 w"
  have "rx_bt True directive_rx p w 0 None =
        (if lits_match True ''Action:'' w
         then rx_bt True (RStar py_isspace # map RLit ''Search'' @ directive_tail) (p + 7) ?u 0 None
         else [])"
    unfolding directive_rx_def by (simp only: rx_bt_lits) (simp add: numeral_eq_Suc del: rx_bt.simps)
  moreover have "\<And>q. rx_bt True (RStar py_isspace # map RLit ''Search'' @ directive_tail) q ?u 0 None \<noteq> []
      \<longleftrightarrow> (\<exists>k \<le> length (takeWhile py_isspace ?u). lits_match True ''Search'' (drop k ?u))"
    by (simp only: rx_bt_RStar_ne_iff rx_bt_lits) (auto simp: directive_tail_ne)
  ultimately have "rx_bt True directive_rx p w 0 None \<noteq> [] \<longleftrightarrow>
        lits_match True ''Action:'' w \<and>
        (\<exists>k \<le> length (takeWhile py_isspace ?u). lits_match True ''Search'' (drop k ?u))"
    by simp
  also have "\<dots> \<longleftrightarrow> lits_match True ''Action:'' w \<and>
                    lits_match True ''Search'' (dropWhile py_isspace ?u)"
  proof -
    have "(\<exists>k \<le> length (takeWhile py_isspace ?u). lits_match True ''Search'' (drop k ?u)) \<longleftrightarrow>
          lits_match True ''Search'' (drop (length (takeWhile py_isspace ?u)) ?u)"
      using search_after_spaces [of _ ?u] by (metis order_refl)
    then show ?thesis by (simp only: dropWhile_eq_drop)
  qed
  also have "\<dots> \<longleftrightarrow> directive_head w"
  proof -
    have "py_lower ''Action:'' = ''action:''" and "py_lower ''Search'' = ''search''"
      by (simp_all add: py_lower_char_def py_upper_code_def)
    then show ?thesis by (simp only: directive_head_def lits_match_ci_prefix)
  qed
  finally show ?thesis .
qed

lemma directive_rx_Nil_iff: "rx_bt True directive_rx p w 0 None = [] \<longleftrightarrow> \<not> directive_head w"
  by (metis directive_rx_ne_iff)

lemma directive_match_None_iff: "directive_match r = None \<longleftrightarrow> \<not> has_directive r"
  by (simp add: directive_match_def re_search_None_iff directive_rx_Nil_iff has_directive_iff)

text \<open>C4: The pattern of line 49 matches a response exactly when, somewhere in it, the
  lower-cased text reads \<open>action:\<close>, then white space, then \<open>search\<close>; the
  match starts at the leftmost such place.\<close>

theorem directive_match_leftmost:
  "(directive_match r \<noteq> None \<longleftrightarrow> has_directive r) \<and>
   (\<forall>i res. directive_match r = Some (i, res) \<longrightarrow>
      directive_head (drop i r) \<and> (\<forall>j < i. \<not> directive_head (drop j r)))"
proof (rule conjI)
  show "directive_match r \<noteq> None \<longleftrightarrow> has_directive r"
    by (simp add: directive_match_def re_search_None_iff directive_rx_Nil_iff has_directive_iff)
next
  show "\<forall>i res. directive_match r = Some (i, res) \<longrightarrow>
      directive_head (drop i r) \<and> (\<forall>j < i. \<not> directive_head (drop j r))"
  proof (intro allI impI)
  fix i res
  assume "directive_match r = Some (i, res)"
  then have "first_match (rx_bt True directive_rx i (drop i r) 0 None) = Some res"
    and "\<forall>j < i. rx_bt True directive_rx j (drop j r) 0 None = []"
    using re_search_from_Some [of True directive_rx 0 r i res]
    by (simp_all add: directive_match_def re_search_def)
  then show "directive_head (drop i r) \<and> (\<forall>j < i. \<not> directive_head (drop j r))"
    by (metis directive_rx_ne_iff first_match_None_iff option.distinct(1))
  qed
qed

section \<open>What the pattern captures on the protocol's format\<close>

lemma after_group_close_plain:
  assumes "plain_term t" and "k < length t"
  shows "rx_bt ci [RGroupClose, ROpt CHR '']'', ROpt CHR 0x22, ROpt CHR 0x27, REol] q
           (drop k (t @ x)) g cap = []"
proof -
  have "drop k (t @ x) = t ! k # drop (Suc k) (t @ x)"
    using assms(2) by (simp add: Cons_nth_drop_Suc)
  moreover have "t ! k \<noteq> CHR ''\<newline>'' \<and> t ! k \<noteq> CHR '']'' \<and> t ! k \<noteq> CHR 0x22 \<and> t ! k \<noteq> CHR 0x27"
    using assms by (simp add: plain_term_def)
  ultimately show ?thesis by simp
qed

lemma lazy_group_plain:
  assumes "plain_term t" and "line_end rest"
  shows "first_match (rx_bt ci (RLazy (\<lambda>c. c \<noteq> CHR ''\<newline>'') # [RGroupClose, ROpt CHR '']'',
            ROpt CHR 0x22, ROpt CHR 0x27, REol]) q (t @ CHR '']'' # rest) q cap)
         = Some (q + length t + 1, Some (q, q + length t))"
proof -
  let ?f = "\<lambda>k. rx_bt ci [RGroupClose, ROpt CHR '']'', ROpt CHR 0x22, ROpt CHR 0x27, REol] (q + k)
              (drop k (t @ CHR '']'' # rest)) q cap"
  have tw: "takeWhile (\<lambda>c. c \<noteq> CHR ''\<newline>'') (t @ CHR '']'' # rest) = t @ [CHR '']'']"
    using assms by (cases rest) (auto simp: plain_term_def line_end_def takeWhile_append)
  have "\<forall>k < length t. ?f k = []" using after_group_close_plain [OF assms(1)] by blast
  then have "first_match (concat (map ?f [0..<Suc (length (t @ [CHR '']'']))])) =
             first_match (?f (length t) @ concat (map ?f [Suc (length t)..<Suc (length (t @ [CHR '']'']))]))"
    by (rule first_match_concat_upt) simp
  moreover have "first_match (?f (length t)) = Some (q + length t + 1, Some (q, q + length t))"
    using assms(2) by (cases rest) (auto simp: line_end_def)
  ultimately show ?thesis
    by (simp only: rx_bt.simps tw first_match_append) simp
qed

lemma directive_rx_prefix:
  "rx_bt True directive_rx 0 (''Action: Search'' @ x) 0 None =
   rx_bt True (RStar py_isspace # map RLit ''Search'' @ directive_tail) 7 ('' Search'' @ x) 0 None"
proof -
  have seven: "Suc (Suc (Suc (Suc (Suc (Suc (Suc 0)))))) = (7::nat)" by simp
  show ?thesis unfolding directive_rx_def
    by (subst rx_bt_lits) (simp add: seven lit_match_def py_lower_char_def py_upper_code_def
        del: rx_bt.simps)
qed

lemma directive_rx_bracket_lazy:
  assumes "x \<noteq> []" "hd x \<noteq> CHR 0x22" "hd x \<noteq> CHR 0x27"
    and "first_match (rx_bt True (RLazy (\<lambda>c. c \<noteq> CHR ''\<newline>'') # [RGroupClose, ROpt CHR '']'',
            ROpt CHR 0x22, ROpt CHR 0x27, REol]) 16 x 16 None) = Some r"
  shows "first_match (rx_bt True directive_rx 0 (''Action: Search ['' @ x) 0 None) = Some r"
  using assms directive_rx_prefix [of "'' ['' @ x"]
  by (simp add: directive_tail_def first_match_append py_isspace_def lit_match_def py_lower_char_def
      py_upper_code_def rx_bt_ROpt_miss rx_bt_ROpt_hit del: rx_bt.simps(3,5))

lemma directive_rx_quote_lazy:
  assumes "x = [] \<or> hd x \<noteq> CHR 0x27"
    and "first_match (rx_bt True (RLazy (\<lambda>c. c \<noteq> CHR ''\<newline>'') # [RGroupClose, ROpt CHR '']'',
            ROpt CHR 0x22, ROpt CHR 0x27, REol]) 17 x 17 None) = Some r"
  shows "first_match (rx_bt True directive_rx 0 (''Action: Search ['' @ CHR 0x22 # x) 0 None) = Some r"
  using assms directive_rx_prefix [of "'' ['' @ CHR 0x22 # x"]
  by (simp add: directive_tail_def first_match_append py_isspace_def lit_match_def py_lower_char_def
      py_upper_code_def rx_bt_ROpt_miss rx_bt_ROpt_hit del: rx_bt.simps(3,5))

lemma directive_rx_line_lazy:
  assumes "x \<noteq> []" "\<not> py_isspace (hd x)" "hd x \<noteq> CHR ''[''" "hd x \<noteq> CHR 0x22" "hd x \<noteq> CHR 0x27"
    and "first_match (rx_bt True (RLazy (\<lambda>c. c \<noteq> CHR ''\<newline>'') # [RGroupClose, ROpt CHR '']'',
            ROpt CHR 0x22, ROpt CHR 0x27, REol]) 15 x 15 None) = Some r"
  shows "first_match (rx_bt True directive_rx 0 (''Action: Search'' @ CHR ''\<newline>'' # x) 0 None) = Some r"
proof -
  obtain d y where x: "x = d # y" using assms(1) by (cases x) auto
  have "\<not> py_isspace d" "d \<noteq> CHR ''['' " "d \<noteq> CHR 0x22" "d \<noteq> CHR 0x27" using assms(2-5) x by simp_all
  then show ?thesis
    using assms(6) x directive_rx_prefix [of "CHR ''\<newline>'' # x"]
    by (simp add: directive_tail_def first_match_append py_isspace_def lit_match_def py_lower_char_def
        py_upper_code_def rx_bt_ROpt_miss rx_bt_ROpt_hit del: rx_bt.simps(3,5))
qed

lemma lazy_group_line:
  assumes "plain_term x" and "line_end rest"
  shows "first_match (rx_bt ci (RLazy (\<lambda>c. c \<noteq> CHR ''\<newline>'') # [RGroupClose, ROpt CHR '']'',
            ROpt CHR 0x22, ROpt CHR 0x27, REol]) q (x @ rest) q cap)
         = Some (q + length x, Some (q, q + length x))"
proof (rule rx_bt_RLazy_first [where m = "length x"])
  have "\<forall>c \<in> set x. c \<noteq> CHR ''\<newline>''" using assms(1) by (simp add: plain_term_def)
  then show "length x \<le> length (takeWhile (\<lambda>c. c \<noteq> CHR ''\<newline>'') (x @ rest))"
    by (simp add: takeWhile_append)
  show "\<forall>k < length x. rx_bt ci [RGroupClose, ROpt CHR '']'', ROpt CHR 0x22, ROpt CHR 0x27, REol] (q + k)
          (drop k (x @ rest)) q cap = []"
    using after_group_close_plain [OF assms(1)] by blast
  show "first_match (rx_bt ci [RGroupClose, ROpt CHR '']'', ROpt CHR 0x22, ROpt CHR 0x27, REol] (q + length x)
          (drop (length x) (x @ rest)) q cap) = Some (q + length x, Some (q, q + length x))"
    using assms(2) by (cases rest) (auto simp: line_end_def)
qed

lemma lazy_group_trailing:
  assumes "plain_term t" and "line_end rest"
    and "c \<noteq> CHR ''\<newline>''" "c \<noteq> CHR '']''" "c \<noteq> CHR 0x22" "c \<noteq> CHR 0x27"
  shows "first_match (rx_bt ci (RLazy (\<lambda>c. c \<noteq> CHR ''\<newline>'') # [RGroupClose, ROpt CHR '']'',
            ROpt CHR 0x22, ROpt CHR 0x27, REol]) q (t @ CHR '']'' # c # rest) q cap)
         = Some (q + length t + 2, Some (q, q + length t + 2))"
proof (rule rx_bt_RLazy_first [where m = "Suc (Suc (length t))"])
  have "\<forall>c \<in> set t. c \<noteq> CHR ''\<newline>''" using assms(1) by (simp add: plain_term_def)
  then show "Suc (Suc (length t)) \<le> length (takeWhile (\<lambda>c. c \<noteq> CHR ''\<newline>'') (t @ CHR '']'' # c # rest))"
    using assms(3) by (simp add: takeWhile_append)
  show "\<forall>k < Suc (Suc (length t)). rx_bt ci [RGroupClose, ROpt CHR '']'', ROpt CHR 0x22, ROpt CHR 0x27, REol] (q + k)
          (drop k (t @ CHR '']'' # c # rest)) q cap = []"
  proof (intro allI impI)
    fix k assume "k < Suc (Suc (length t))"
    then consider "k < length t" | "k = length t" | "k = Suc (length t)" by linarith
    then show "rx_bt ci [RGroupClose, ROpt CHR '']'', ROpt CHR 0x22, ROpt CHR 0x27, REol] (q + k)
          (drop k (t @ CHR '']'' # c # rest)) q cap = []"
    proof cases
      case 1
      then show ?thesis using after_group_close_plain [OF assms(1)] by blast
    next
      case 2
      then show ?thesis using assms(3-6) by simp
    next
      case 3
      then show ?thesis using assms(3-6) by simp
    qed
  qed
  show "first_match (rx_bt ci [RGroupClose, ROpt CHR '']'', ROpt CHR 0x22, ROpt CHR 0x27, REol] (q + Suc (Suc (length t)))
          (drop (Suc (Suc (length t))) (t @ CHR '']'' # c # rest)) q cap)
        = Some (q + length t + 2, Some (q, q + length t + 2))"
    using assms(2) by (cases rest) (auto simp: line_end_def)
qed

lemma lazy_group_quoted:
  assumes "plain_term t" and "line_end rest"
  shows "first_match (rx_bt ci (RLazy (\<lambda>c. c \<noteq> CHR ''\<newline>'') # [RGroupClose, ROpt CHR '']'',
            ROpt CHR 0x22, ROpt CHR 0x27, REol]) q (t @ CHR 0x22 # CHR '']'' # rest) q cap)
         = Some (q + length t + 2, Some (q, q + length t + 1))"
proof (rule rx_bt_RLazy_first [where m = "Suc (length t)"])
  have "\<forall>c \<in> set t. c \<noteq> CHR ''\<newline>''" using assms(1) by (simp add: plain_term_def)
  then show "Suc (length t) \<le> length (takeWhile (\<lambda>c. c \<noteq> CHR ''\<newline>'') (t @ CHR 0x22 # CHR '']'' # rest))"
    by (simp add: takeWhile_append)
  show "\<forall>k < Suc (length t). rx_bt ci [RGroupClose, ROpt CHR '']'', ROpt CHR 0x22, ROpt CHR 0x27, REol] (q + k)
          (drop k (t @ CHR 0x22 # CHR '']'' # rest)) q cap = []"
  proof (intro allI impI)
    fix k assume "k < Suc (length t)"
    then consider "k < length t" | "k = length t" by linarith
    then show "rx_bt ci [RGroupClose, ROpt CHR '']'', ROpt CHR 0x22, ROpt CHR 0x27, REol] (q + k)
          (drop k (t @ CHR 0x22 # CHR '']'' # rest)) q cap = []"
    proof cases
      case 1
      then show ?thesis using after_group_close_plain [OF assms(1)] by blast
    next
      case 2
      then show ?thesis by simp
    qed
  qed
  show "first_match (rx_bt ci [RGroupClose, ROpt CHR '']'', ROpt CHR 0x22, ROpt CHR 0x27, REol] (q + Suc (length t))
          (drop (Suc (length t)) (t @ CHR 0x22 # CHR '']'' # rest)) q cap)
        = Some (q + length t + 2, Some (q, q + length t + 1))"
    using assms(2) by (cases rest) (auto simp: line_end_def)
qed

lemma directive_rx_plain:
  assumes "plain_term t" and "line_end rest"
  shows "first_match (rx_bt True directive_rx 0 (''Action: Search ['' @ t @ CHR '']'' # rest) 0 None)
         = Some (length t + 17, Some (16, 16 + length t))"
proof (rule directive_rx_bracket_lazy)
  show "t @ CHR '']'' # rest \<noteq> []" by simp
  show "hd (t @ CHR '']'' # rest) \<noteq> CHR 0x22" "hd (t @ CHR '']'' # rest) \<noteq> CHR 0x27"
    using assms(1) by (cases t; simp add: plain_term_def)+
  show "first_match (rx_bt True (RLazy (\<lambda>c. c \<noteq> CHR ''\<newline>'') # [RGroupClose, ROpt CHR '']'',
            ROpt CHR 0x22, ROpt CHR 0x27, REol]) 16 (t @ CHR '']'' # rest) 16 None)
        = Some (length t + 17, Some (16, 16 + length t))"
    using lazy_group_plain [OF assms, of True 16 None] by simp
qed

lemma directive_rx_quoted:
  assumes "plain_term t" and "line_end rest"
  shows "first_match (rx_bt True directive_rx 0 (''Action: Search ['' @ CHR 0x22 # t @ CHR 0x22 # CHR '']'' # rest) 0 None)
         = Some (length t + 19, Some (17, 18 + length t))"
proof (rule directive_rx_quote_lazy)
  show "t @ CHR 0x22 # CHR '']'' # rest = [] \<or> hd (t @ CHR 0x22 # CHR '']'' # rest) \<noteq> CHR 0x27"
    using assms(1) by (cases t) (simp_all add: plain_term_def)
  show "first_match (rx_bt True (RLazy (\<lambda>c. c \<noteq> CHR ''\<newline>'') # [RGroupClose, ROpt CHR '']'',
            ROpt CHR 0x22, ROpt CHR 0x27, REol]) 17 (t @ CHR 0x22 # CHR '']'' # rest) 17 None)
        = Some (length t + 19, Some (17, 18 + length t))"
    using lazy_group_quoted [OF assms, of True 17 None] by simp
qed

text \<open>C5: On the protocol's format \<open>Action: Search [t]\<close> at the end of a line,
  with \<open>t\<close> free of line breaks, closing brackets and quotes, the match starts at the
  directive and group 1 is exactly \<open>t\<close> (characters 16 to \<open>16 + |t|\<close>).\<close>

theorem directive_match_canonical:
  assumes "plain_term t" and "line_end rest"
  shows "directive_match (''Action: Search ['' @ t @ CHR '']'' # rest)
         = Some (0, length t + 17, Some (16, 16 + length t))"
  using directive_rx_plain [OF assms]
  by (simp add: directive_match_def re_search_def rx_first_eq_first_match del: rx_bt.simps)

section \<open>What any match captures\<close>

lemma directive_rx_split:
  "directive_rx =
     (map RLit ''Action:'' @ RStar py_isspace # map RLit ''Search'' @
        [RStar py_isspace, ROpt CHR ''['', ROpt CHR 0x22, ROpt CHR 0x27]) @
     RGroupOpen # RLazy (\<lambda>c. c \<noteq> CHR ''\<newline>'') # RGroupClose #
     [ROpt CHR '']'', ROpt CHR 0x22, ROpt CHR 0x27, REol]"
  by (simp add: directive_rx_def directive_tail_def)

lemma take_le_takeWhile_set:
  "k \<le> length (takeWhile P xs) \<Longrightarrow> c \<in> set (take k xs) \<Longrightarrow> P c"
proof -
  assume k: "k \<le> length (takeWhile P xs)" and c: "c \<in> set (take k xs)"
  have "take k xs = take k (takeWhile P xs)"
    using k by (metis takeWhile_dropWhile_id take_append diff_is_0_eq take0 append_Nil2)
  then have "c \<in> set (takeWhile P xs)" using c by (metis in_set_takeD)
  then show "P c" by (rule set_takeWhileD [THEN conjunct2])
qed

lemma directive_capture:
  assumes "directive_match r = Some (j, res)"
  shows "\<exists>k k'. snd res = Some (j + k, j + k + k') \<and>
           k' \<le> length (takeWhile (\<lambda>c. c \<noteq> CHR ''\<newline>'') (drop (j + k) r))"
proof -
  from assms have res: "res \<in> set (rx_bt True directive_rx j (drop j r) 0 None)"
    using re_search_Some by (auto simp: directive_match_def)
  have nog: "\<forall>x \<in> set (map RLit ''Action:'' @ RStar py_isspace # map RLit ''Search'' @
        [RStar py_isspace, ROpt CHR ''['', ROpt CHR 0x22, ROpt CHR 0x27]). \<not> is_group_item x"
    by simp
  from rx_bt_prefix_items [OF res [unfolded directive_rx_split] nog] obtain k where
    "res \<in> set (rx_bt True (RGroupOpen # RLazy (\<lambda>c. c \<noteq> CHR ''\<newline>'') # RGroupClose #
        [ROpt CHR '']'', ROpt CHR 0x22, ROpt CHR 0x27, REol]) (j + k) (drop k (drop j r)) 0 None)"
    by blast
  then show ?thesis by (auto dest: rx_bt_lazy_group simp: add.commute)
qed

lemma directive_group_text:
  assumes "directive_match r = Some m"
  obtains g where "group1 r m = Some g" and "sublist g r" and "CHR ''\<newline>'' \<notin> set g"
proof -
  obtain j res where m: "m = (j, res)" by (cases m)
  with assms obtain k k' where cap: "snd res = Some (j + k, j + k + k')"
    and k': "k' \<le> length (takeWhile (\<lambda>c. c \<noteq> CHR ''\<newline>'') (drop (j + k) r))"
    using directive_capture by blast
  let ?g = "take k' (drop (j + k) r)"
  have "group1 r m = Some ?g" using m cap by (simp add: group1_def)
  moreover have "sublist ?g r" by (rule sublist_order.order_trans [OF sublist_take sublist_drop])
  moreover have "CHR ''\<newline>'' \<notin> set ?g" using take_le_takeWhile_set [OF k'] by blast
  ultimately show ?thesis using that by blast
qed

text \<open>C6: Whatever the response, a match captures group 1, and the captured text is a
  substring of the response that lies on one line: \<open>.\<close> does not match a line
  break.  (The white space before the term may span lines, so the line need not be the
  one of \<open>Action:\<close>.)\<close>

theorem directive_group_line:
  assumes "directive_match r = Some m"
  shows "\<exists>g. group1 r m = Some g \<and> sublist g r \<and> CHR ''\<newline>'' \<notin> set g"
  using directive_group_text [OF assms] by blast

lemma py_strip_chars_sublist: "sublist (py_strip_chars cs s) s"
  by (simp add: py_strip_chars_def py_strip_by_sublist)

lemma search_term_of_sublist: "sublist (search_term_of g) g"
proof -
  have "sublist (search_term_of g) (py_strip g)"
    unfolding search_term_of_def
    by (meson py_strip_chars_sublist sublist_order.order_trans)
  then show ?thesis
    by (rule sublist_order.order_trans) (simp add: py_strip_def py_strip_by_sublist)
qed

lemma search_term_line:
  assumes "directive_match r = Some m" and "group1 r m = Some g"
  shows "sublist (search_term_of g) r \<and> CHR ''\<newline>'' \<notin> set (search_term_of g)"
proof -
  from directive_group_text [OF assms(1)] assms(2)
  have g: "sublist g r" "CHR ''\<newline>'' \<notin> set g" by auto
  have "sublist (search_term_of g) g" by (rule search_term_of_sublist)
  with g show ?thesis by (meson set_mono_sublist subsetD sublist_order.order_trans)
qed

section \<open>The search term on the spec's formats and beyond\<close>

lemma clean_term_hd_last:
  assumes "clean_term t" and "t \<noteq> []"
  shows "\<not> py_isspace (hd t) \<and> \<not> py_isspace (last t) \<and>
         hd t \<notin> set ''[]'' \<and> hd t \<notin> set [CHR 0x22, CHR 0x27] \<and>
         last t \<notin> set ''[]'' \<and> last t \<notin> set [CHR 0x22, CHR 0x27]"
proof -
  obtain c u where t: "t = c # u" using assms(2) by (cases t) auto
  have mem: "hd t \<in> set t" "last t \<in> set t" using assms(2) by simp_all
  have p: "plain_term t" using assms(1) by (simp add: clean_term_def)
  have "hd t \<noteq> CHR '']'' \<and> hd t \<noteq> CHR 0x22 \<and> hd t \<noteq> CHR 0x27"
    using p mem(1) unfolding plain_term_def by blast
  moreover have "last t \<noteq> CHR '']'' \<and> last t \<noteq> CHR 0x22 \<and> last t \<noteq> CHR 0x27"
    using p mem(2) unfolding plain_term_def by blast
  moreover have "\<not> py_isspace c \<and> c \<noteq> CHR ''['' \<and> \<not> py_isspace (last t) \<and> last t \<noteq> CHR ''[''"
    using assms(1) t by (simp add: clean_term_def)
  ultimately show ?thesis using t by simp
qed

lemma search_term_of_clean:
  assumes "clean_term t"
  shows "search_term_of t = t"
proof (cases "t = []")
  case True
  then show ?thesis by (simp add: search_term_of_def py_strip_def py_strip_chars_def py_strip_by_def)
next
  case False
  then show ?thesis using clean_term_hd_last [OF assms False]
    by (simp add: search_term_of_def py_strip_def py_strip_chars_def py_strip_by_ends)
qed

lemma search_term_of_closing_quote:
  assumes p: "plain_term u"
    and ends: "u = [] \<or> (\<not> py_isspace (hd u) \<and> hd u \<noteq> CHR ''['' \<and> last u \<noteq> CHR ''['')"
  shows "search_term_of (u @ [CHR 0x22]) = u"
proof (cases "u = []")
  case True
  then show ?thesis by (simp add: search_term_of_def py_strip_def py_strip_chars_def py_strip_by_def py_isspace_def)
next
  case False
  have mem: "hd u \<in> set u" "last u \<in> set u" using False by simp_all
  have h: "hd u \<noteq> CHR '']'' \<and> hd u \<noteq> CHR 0x22 \<and> hd u \<noteq> CHR 0x27"
    using p mem(1) unfolding plain_term_def by blast
  have l: "last u \<noteq> CHR '']'' \<and> last u \<noteq> CHR 0x22 \<and> last u \<noteq> CHR 0x27"
    using p mem(2) unfolding plain_term_def by blast
  have e: "\<not> py_isspace (hd u) \<and> hd u \<noteq> CHR ''['' \<and> last u \<noteq> CHR ''[''" using ends False by simp
  have "py_strip (u @ [CHR 0x22]) = u @ [CHR 0x22]"
    using False e by (simp add: py_strip_def py_strip_by_ends py_isspace_def)
  moreover have "py_strip_chars [CHR 0x22] (u @ [CHR 0x22]) = u"
    using False h l by (simp add: py_strip_chars_def py_strip_by_snoc)
  moreover have "py_strip_chars [CHR 0x27] u = u" "py_strip_chars ''[]'' u = u"
    using False h l e by (simp_all add: py_strip_chars_def py_strip_by_ends)
  ultimately show ?thesis by (simp add: search_term_of_def)
qed

lemma search_term_of_stable:
  assumes "s \<noteq> []"
    and "\<not> py_isspace (hd s)" "hd s \<notin> set ''[]''" "hd s \<noteq> CHR 0x22" "hd s \<noteq> CHR 0x27"
    and "\<not> py_isspace (last s)" "last s \<notin> set ''[]''" "last s \<noteq> CHR 0x22" "last s \<noteq> CHR 0x27"
  shows "search_term_of s = s"
  using assms by (simp add: search_term_of_def py_strip_def py_strip_chars_def py_strip_by_ends)

lemma parsed_search_term_match:
  "directive_match r = Some (i, e, Some (b, b')) \<Longrightarrow>
   parsed_search_term r = Some (search_term_of (take (b' - b) (drop b r)))"
  by (simp add: parsed_search_term_def group1_def)

lemma directive_match_quoted:
  assumes "plain_term t" and "line_end rest"
  shows "directive_match (''Action: Search ['' @ CHR 0x22 # t @ CHR 0x22 # CHR '']'' # rest)
         = Some (0, length t + 19, Some (17, 18 + length t))"
  using directive_rx_quoted [OF assms]
  by (simp add: directive_match_def re_search_def rx_first_eq_first_match del: rx_bt.simps)

lemma clean_term_quote_ends:
  "clean_term t \<Longrightarrow> t = [] \<or> (\<not> py_isspace (hd t) \<and> hd t \<noteq> CHR ''['' \<and> last t \<noteq> CHR ''['')"
  using clean_term_hd_last by fastforce

text \<open>C26: On both formats the spec names, \<open>Action: Search [t]\<close> and
  \<open>Action: Search ["t"]\<close> at the end of a line, the controller searches for exactly
  \<open>t\<close>, for any term the normalisation leaves alone (section 8's example
  \<open>computer science admission\<close> among them).\<close>

theorem parsed_search_term_protocol:
  assumes "clean_term t" and "line_end rest"
  shows "parsed_search_term (''Action: Search ['' @ t @ CHR '']'' # rest) = Some t \<and>
         parsed_search_term (''Action: Search ['' @ CHR 0x22 # t @ CHR 0x22 # CHR '']'' # rest) = Some t"
proof
  have p: "plain_term t" using assms(1) by (simp add: clean_term_def)
  show "parsed_search_term (''Action: Search ['' @ t @ CHR '']'' # rest) = Some t"
  proof -
    have "directive_match (''Action: Search ['' @ t @ CHR '']'' # rest)
          = Some (0, length t + 17, Some (16, 16 + length t))"
      using directive_rx_plain [OF p assms(2)]
      by (simp add: directive_match_def re_search_def rx_first_eq_first_match del: rx_bt.simps)
    then show ?thesis using search_term_of_clean [OF assms(1)] by (simp add: parsed_search_term_match)
  qed
  show "parsed_search_term (''Action: Search ['' @ CHR 0x22 # t @ CHR 0x22 # CHR '']'' # rest) = Some t"
    using parsed_search_term_match [OF directive_match_quoted [OF p assms(2)]]
      search_term_of_closing_quote [OF p clean_term_quote_ends [OF assms(1)]] by simp
qed

text \<open>C27: The pattern is anchored at the end of the line, and trailing punctuation
  after the closing bracket ends up in the term: \<open>Action: Search [t].\<close> searches
  for \<open>t].\<close>, although the spec says the anchoring is there to tolerate trailing
  punctuation.\<close>

theorem parsed_search_term_trailing:
  assumes "clean_term t" "t \<noteq> []" "line_end rest"
    and "c \<notin> set ''\<newline>[]''" "c \<noteq> CHR 0x22" "c \<noteq> CHR 0x27" "\<not> py_isspace c"
  shows "parsed_search_term (''Action: Search ['' @ t @ CHR '']'' # c # rest) = Some (t @ [CHR '']'', c])"
proof -
  have p: "plain_term t" using assms(1) by (simp add: clean_term_def)
  have e: "\<not> py_isspace (hd t) \<and> \<not> py_isspace (last t) \<and> hd t \<notin> set ''[]'' \<and>
      hd t \<notin> set [CHR 0x22, CHR 0x27] \<and> last t \<notin> set ''[]'' \<and> last t \<notin> set [CHR 0x22, CHR 0x27]"
    by (rule clean_term_hd_last [OF assms(1,2)])
  have "first_match (rx_bt True (RLazy (\<lambda>c. c \<noteq> CHR ''\<newline>'') # [RGroupClose, ROpt CHR '']'',
            ROpt CHR 0x22, ROpt CHR 0x27, REol]) 16 (t @ CHR '']'' # c # rest) 16 None)
        = Some (length t + 18, Some (16, length t + 18))"
    using lazy_group_trailing [OF p assms(3), of c True 16 None] assms(4-6) by simp
  then have "first_match (rx_bt True directive_rx 0 (''Action: Search ['' @ t @ CHR '']'' # c # rest) 0 None)
        = Some (length t + 18, Some (16, length t + 18))"
    using e assms(2) by (intro directive_rx_bracket_lazy) simp_all
  then have "directive_match (''Action: Search ['' @ t @ CHR '']'' # c # rest)
        = Some (0, length t + 18, Some (16, length t + 18))"
    by (simp add: directive_match_def re_search_def rx_first_eq_first_match del: rx_bt.simps)
  moreover have "search_term_of (t @ [CHR '']'', c]) = t @ [CHR '']'', c]"
    using e assms(2,4-7) by (intro search_term_of_stable) simp_all
  ultimately show ?thesis by (simp add: parsed_search_term_match)
qed

text \<open>C28: The strip chain of line 52 removes white space before the quotes, once:
  white space inside the quotes survives, so \<open>Action: Search ["t "]\<close> searches
  for \<open>t \<close>, although the spec strips white space, quotes and brackets in any
  order or combination.\<close>

theorem parsed_search_term_inner_space:
  assumes "clean_term t" "t \<noteq> []" "line_end rest"
  shows "parsed_search_term (''Action: Search ['' @ CHR 0x22 # t @ CHR '' '' # CHR 0x22 # CHR '']'' # rest)
         = Some (t @ '' '')"
proof -
  have p: "plain_term (t @ '' '')" using assms(1) by (simp add: clean_term_def plain_term_def)
  have e: "\<not> py_isspace (hd t) \<and> hd t \<noteq> CHR ''[''"
    using clean_term_hd_last [OF assms(1,2)] by simp
  have "directive_match (''Action: Search ['' @ CHR 0x22 # (t @ '' '') @ CHR 0x22 # CHR '']'' # rest)
         = Some (0, length t + 20, Some (17, 19 + length t))"
    using directive_match_quoted [OF p assms(3)] by simp
  moreover have "search_term_of ((t @ '' '') @ [CHR 0x22]) = t @ '' ''"
    using e assms(2) by (intro search_term_of_closing_quote p) simp
  ultimately show ?thesis by (simp add: parsed_search_term_match)
qed

text \<open>C30: \<open>\s*\<close> also matches a line break, so a response with
  \<open>Action: Search\<close> at the end of a line searches for the whole next line,
  although the spec requires a bracketed or quoted term after the token.\<close>

theorem parsed_search_term_next_line:
  assumes "clean_term u" "u \<noteq> []" "line_end rest"
  shows "parsed_search_term (''Action: Search'' @ CHR ''\<newline>'' # u @ rest) = Some u"
proof -
  have p: "plain_term u" using assms(1) by (simp add: clean_term_def)
  have e: "\<not> py_isspace (hd u) \<and> hd u \<noteq> CHR ''['' \<and> hd u \<noteq> CHR 0x22 \<and> hd u \<noteq> CHR 0x27"
    using clean_term_hd_last [OF assms(1,2)] by simp
  have "first_match (rx_bt True (RLazy (\<lambda>c. c \<noteq> CHR ''\<newline>'') # [RGroupClose, ROpt CHR '']'',
            ROpt CHR 0x22, ROpt CHR 0x27, REol]) 15 (u @ rest) 15 None)
        = Some (15 + length u, Some (15, 15 + length u))"
    by (rule lazy_group_line [OF p assms(3)])
  then have "first_match (rx_bt True directive_rx 0 (''Action: Search'' @ CHR ''\<newline>'' # u @ rest) 0 None)
        = Some (15 + length u, Some (15, 15 + length u))"
    using e assms(2) by (intro directive_rx_line_lazy) simp_all
  then have "directive_match (''Action: Search'' @ CHR ''\<newline>'' # u @ rest)
        = Some (0, 15 + length u, Some (15, 15 + length u))"
    by (simp add: directive_match_def re_search_def rx_first_eq_first_match del: rx_bt.simps)
  then show ?thesis using search_term_of_clean [OF assms(1)] by (simp add: parsed_search_term_match)
qed

section \<open>Witnesses\<close>

theorem directive_match_leftmost_witness:
  "directive_match ''Sure. Action: Search [fee]'' = Some (6, 26, Some (22, 25)) \<and>
   directive_head (drop 6 ''Sure. Action: Search [fee]'') \<and>
   \<not> directive_head (drop 5 ''Sure. Action: Search [fee]'')"
proof -
  have m: "directive_match ''Sure. Action: Search [fee]'' = Some (6, 26, Some (22, 25))" by code_simp
  have l: "directive_head (drop 6 ''Sure. Action: Search [fee]'') \<and>
      (\<forall>j < 6. \<not> directive_head (drop j ''Sure. Action: Search [fee]''))"
    using m directive_match_leftmost [of "''Sure. Action: Search [fee]''"] by blast
  have "\<not> directive_head (drop 5 ''Sure. Action: Search [fee]'')"
    using l [THEN conjunct2, rule_format, of 5] by simp
  with m l show ?thesis by blast
qed

theorem directive_match_canonical_witness:
  "directive_match (''Action: Search ['' @ ''computer science admission'' @ CHR '']'' # [])
     = Some (0, 43, Some (16, 42))"
proof -
  have h1: "plain_term ''computer science admission''" by (simp add: plain_term_def)
  have h2: "line_end []" by (simp add: line_end_def)
  show ?thesis using directive_match_canonical [OF h1 h2] h1 h2 by simp
qed

theorem directive_group_line_witness:
  "directive_match ''Sure. Action: Search [fee]'' = Some (6, 26, Some (22, 25)) \<and>
   (\<exists>g. group1 ''Sure. Action: Search [fee]'' (6, 26, Some (22, 25)) = Some g \<and>
        sublist g ''Sure. Action: Search [fee]'' \<and> CHR ''\<newline>'' \<notin> set g)"
proof -
  have m: "directive_match ''Sure. Action: Search [fee]'' = Some (6, 26, Some (22, 25))" by code_simp
  show ?thesis using m directive_group_line [OF m] by blast
qed

theorem parsed_search_term_protocol_witness:
  "parsed_search_term ''Action: Search [computer science admission]'' = Some ''computer science admission'' \<and>
   parsed_search_term (''Action: Search ['' @ CHR 0x22 # ''computer science admission'' @ CHR 0x22 # '']'')
     = Some ''computer science admission''"
proof -
  have "clean_term ''computer science admission''"
    by (simp add: clean_term_def plain_term_def py_isspace_def)
  moreover have "line_end []" by (simp add: line_end_def)
  ultimately show ?thesis using parsed_search_term_protocol [of "''computer science admission''" "[]"] by simp
qed

theorem parsed_search_term_trailing_witness:
  "parsed_search_term ''Action: Search [fees].'' = Some ''fees].''"
proof -
  have "clean_term ''fees''" by (simp add: clean_term_def plain_term_def py_isspace_def)
  moreover have "line_end []" by (simp add: line_end_def)
  ultimately show ?thesis
    using parsed_search_term_trailing [of "''fees''" "[]" "CHR ''.''"] by (simp add: py_isspace_def)
qed

theorem parsed_search_term_inner_space_witness:
  "parsed_search_term (''Action: Search ['' @ CHR 0x22 # ''fees '' @ CHR 0x22 # '']'') = Some ''fees ''"
proof -
  have "clean_term ''fees''" by (simp add: clean_term_def plain_term_def py_isspace_def)
  moreover have "line_end []" by (simp add: line_end_def)
  ultimately show ?thesis using parsed_search_term_inner_space [of "''fees''" "[]"] by simp
qed

theorem parsed_search_term_next_line_witness:
  "parsed_search_term (''Action: Search'' @ CHR ''\<newline>'' # ''Hello there'') = Some ''Hello there''"
proof -
  have "clean_term ''Hello there''" by (simp add: clean_term_def plain_term_def py_isspace_def)
  moreover have "line_end []" by (simp add: line_end_def)
  ultimately show ?thesis using parsed_search_term_next_line [of "''Hello there''" "[]"] by simp
qed

end
