(* ===== verification/Guardrail.thy ===== *)
theory Guardrail
  imports Prelude
begin

text \<open>
  The domain gate of \<open>src/backend/agent.py\<close>, \<open>is_department_related\<close>
  (lines 73--80): a query is in the domain when its lower-cased text contains one of
  24 fixed keywords as a substring.  The lemmas give the gate's declarative reading,
  its insensitivity to case and its monotonicity under extension of the query.
\<close>

definition department_keywords :: "string list" where
  "department_keywords =
     [''department'', ''course'', ''admission'', ''faculty'', ''fee'', ''program'',
      ''engineering'', ''syllabus'', ''professor'', ''phd'', ''msc'', ''uet'',
      ''computer'', ''civil'', ''electrical'', ''mechanical'', ''scholarship'',
      ''dean'', ''merit'', ''campus'', ''hostel'', ''library'', ''sport'', ''fee'']"

definition is_department_related :: "string \<Rightarrow> bool" where
  "is_department_related query = list_ex (\<lambda>k. py_contains k (py_lower query)) department_keywords"

lemma is_department_related_iff:
  "is_department_related q \<longleftrightarrow> (\<exists>k \<in> set department_keywords. sublist k (py_lower q))"
  by (simp add: is_department_related_def py_contains_def list_ex_iff)

lemma department_keywords_lower: "k \<in> set department_keywords \<Longrightarrow> py_lower k = k"
  by (auto simp: department_keywords_def py_lower_char_def py_upper_code_def)

lemma is_department_related_extend:
  "is_department_related q \<Longrightarrow> is_department_related (a @ q @ b)"
  unfolding is_department_related_iff
  by (auto intro: sublist_order.order_trans [OF _ sublist_appendI])

text \<open>C12: Any casing of a keyword, anywhere in the query, passes the gate
  (for example \<open>"ADMISSION fee?"\<close>).\<close>

theorem keyword_any_case_in_domain:
  assumes "k \<in> set department_keywords" and "py_lower w = k"
  shows "is_department_related (a @ w @ b)"
proof -
  have "sublist k (py_lower a @ k @ py_lower b)" by simp
  then have "is_department_related w"
    using assms department_keywords_lower [OF assms(1)] by (auto simp: is_department_related_iff)
  then show ?thesis by (rule is_department_related_extend)
qed

section \<open>Witnesses\<close>

theorem keyword_any_case_in_domain_witness:
  "is_department_related ([] @ ''ADMISSION'' @ '' fee?'')"
proof -
  have h1: "''admission'' \<in> set department_keywords" by (simp add: department_keywords_def)
  have h2: "py_lower ''ADMISSION'' = ''admission''" by (simp add: py_lower_char_def py_upper_code_def)
  show ?thesis using keyword_any_case_in_domain [OF h1 h2, of "[]" "'' fee?''"] h1 h2 by simp
qed

end
