(* ===== verification/Services.thy ===== *)
theory Services
  imports Prelude
begin

text \<open>
  The outside collaborators the backend calls, as the interface the components agree
  on.  \<open>src/backend/agent.py\<close> creates them once at import time (lines 10--12 and
  31): the Chroma vector store over the ingested prospectus with its Ollama embeddings,
  and the \<open>ChatOllama\<close> model \<open>gemma3\<close> at temperature 0.  They are not code of
  this repository, so the model takes them as parameters:
  \<^item> \<open>llm p\<close> is \<open>llm.invoke(p).content\<close>, or the exception the call raises;
  \<^item> \<open>rank q\<close> is the list of stored passages (\<open>page_content\<close>) in order of
    similarity to \<open>q\<close>, or the exception the embedding or the store raises.
  Every call the backend makes on them is recorded as an event, in order.  A run of one
  request calls each prompt at most once (the lemmas of \<open>Agent\<close> show it), so a
  function of the prompt loses no generality over a model whose answers vary.
\<close>

record services =
  llm :: "string \<Rightarrow> exn + string"
  rank :: "string \<Rightarrow> exn + string list"

datatype event =
    LlmInvoke string         \<comment> \<open>\<open>llm.invoke(prompt)\<close>\<close>
  | RetrieverInvoke string   \<comment> \<open>\<open>retriever.invoke(query)\<close>, after its log line\<close>

type_synonym 'a backend = "(event, 'a) eff"

definition llm_call :: "services \<Rightarrow> string \<Rightarrow> string backend" where
  "llm_call svc prompt tr = (llm svc prompt, tr @ [LlmInvoke prompt])"

fun is_llm_event :: "event \<Rightarrow> bool" where
  "is_llm_event (LlmInvoke _) = True"
| "is_llm_event (RetrieverInvoke _) = False"

lemma llm_call_apply [simp]: "llm_call svc p tr = (llm svc p, tr @ [LlmInvoke p])"
  by (simp add: llm_call_def)

end
