(* ===== verification/Retrieval.thy ===== *)
theory Retrieval
  imports Services
begin

text \<open>
  The retrieval tool of \<open>src/backend/agent.py\<close>: the retriever with \<open>k = 2\<close>
  (line 12) and \<open>search_prospectus\<close> (lines 15--28), which never raises: an
  exception of the store becomes the sentinel \<open>"Error."\<close>, an empty result the
  sentinel \<open>"No info found."\<close>, and otherwise each passage is cut to its first 450
  characters, prefixed by \<open>"- "\<close>, suffixed by \<open>"..."\<close> and the snippets are
  joined by line breaks in the order of the store.
\<close>

definition retriever_k :: nat where
  "retriever_k = 2"

definition retriever_invoke :: "services \<Rightarrow> string \<Rightarrow> exn + string list" where
  "retriever_invoke svc q = (case rank svc q of Inl e \<Rightarrow> Inl e | Inr docs \<Rightarrow> Inr (take retriever_k docs))"

definition snippet_cap :: nat where
  "snippet_cap = 450"

definition format_doc :: "string \<Rightarrow> string" where
  "format_doc d = ''- '' @ take snippet_cap d @ ''...''"

definition format_context :: "string list \<Rightarrow> string" where
  "format_context docs = (if docs = [] then ''No info found.'' else py_join [CHR ''\<newline>''] (map format_doc docs))"

definition prospectus_context :: "services \<Rightarrow> string \<Rightarrow> string" where
  "prospectus_context svc query =
     (case retriever_invoke svc query of Inl e \<Rightarrow> ''Error.'' | Inr docs \<Rightarrow> format_context docs)"

definition search_prospectus :: "services \<Rightarrow> string \<Rightarrow> string backend" where
  "search_prospectus svc query tr = (Inr (prospectus_context svc query), tr @ [RetrieverInvoke query])"

lemma search_prospectus_apply [simp]:
  "search_prospectus svc q tr = (Inr (prospectus_context svc q), tr @ [RetrieverInvoke q])"
  by (simp add: search_prospectus_def)

lemma length_format_doc: "length (format_doc d) \<le> snippet_cap + 5"
  by (simp add: format_doc_def)

lemma length_retriever_invoke: "retriever_invoke svc q = Inr docs \<Longrightarrow> length docs \<le> retriever_k"
  by (auto simp: retriever_invoke_def split: sum.splits)

lemma sum_list_le_length_mult:
  "(\<forall>x \<in> set xs. f x \<le> c) \<Longrightarrow> sum_list (map f xs) \<le> length xs * (c::nat)"
  by (induction xs) auto

lemma length_format_context:
  assumes "length docs \<le> retriever_k"
  shows "length (format_context docs) \<le> retriever_k * (snippet_cap + 5) + (retriever_k - 1)"
proof (cases "docs = []")
  case True
  then show ?thesis by (simp add: format_context_def retriever_k_def snippet_cap_def)
next
  case False
  have "sum_list (map length (map format_doc docs)) \<le> length docs * (snippet_cap + 5)"
    using length_format_doc by (simp add: sum_list_le_length_mult)
  also have "\<dots> \<le> retriever_k * (snippet_cap + 5)"
    using assms by simp
  finally show ?thesis
    using False assms by (simp add: format_context_def length_py_join)
qed

lemma format_context_hd:
  "docs \<noteq> [] \<Longrightarrow> hd (format_context docs) = CHR ''-''"
proof -
  assume "docs \<noteq> []"
  then obtain d ds where "docs = d # ds" by (cases docs) auto
  then show ?thesis by (cases ds) (simp_all add: format_context_def format_doc_def)
qed

section \<open>Properties of the retrieval tool\<close>

text \<open>C13: The context handed to the model is bounded: at most two snippets of at most
  455 characters and one separator, whatever the store returns.\<close>

theorem prospectus_context_bound: "length (prospectus_context svc q) \<le> 911"
proof (cases "retriever_invoke svc q")
  case (Inl e)
  then show ?thesis by (simp add: prospectus_context_def)
next
  case (Inr docs)
  then have "length (format_context docs) \<le> retriever_k * (snippet_cap + 5) + (retriever_k - 1)"
    by (intro length_format_context length_retriever_invoke)
  with Inr show ?thesis by (simp add: prospectus_context_def retriever_k_def snippet_cap_def)
qed

text \<open>C14: The three outcomes are told apart by the text alone: the sentinel of a failing
  store, the sentinel of an empty result, and formatted snippets, which start with a
  dash.\<close>

theorem prospectus_context_outcomes:
  "(prospectus_context svc q = ''Error.'' \<longleftrightarrow> (\<exists>e. rank svc q = Inl e)) \<and>
   (prospectus_context svc q = ''No info found.'' \<longleftrightarrow> rank svc q = Inr [])"
proof (cases "rank svc q")
  case (Inl e)
  then show ?thesis by (simp add: prospectus_context_def retriever_invoke_def)
next
  case (Inr docs)
  show ?thesis
  proof (cases docs)
    case Nil
    with Inr show ?thesis
      by (simp add: prospectus_context_def retriever_invoke_def format_context_def)
  next
    case (Cons d ds)
    have ne: "take retriever_k docs \<noteq> []" using Cons by (simp add: retriever_k_def)
    then have "hd (format_context (take retriever_k docs)) = CHR ''-''" by (rule format_context_hd)
    then have "format_context (take retriever_k docs) \<noteq> ''Error.'' \<and>
               format_context (take retriever_k docs) \<noteq> ''No info found.''" by auto
    with Inr Cons show ?thesis by (simp add: prospectus_context_def retriever_invoke_def)
  qed
qed

end
