(* ===== verification/Agent.thy ===== *)
theory Agent
  imports Directive Guardrail Retrieval
begin

text \<open>
  The controller of \<open>src/backend/agent.py\<close>: \<open>run_manual_agent\<close> (lines
  34--70) and the entry point \<open>process_query\<close> (lines 83--90).  Turn 1 asks the
  model whether to search; a directive found by the pattern of line 49 leads to a search
  with the normalised term and a final prompt with the retrieved context; a response
  that mentions \<open>sorry\<close> or \<open>model\<close> leads to a search with the query itself and
  a short prompt; any other response is the answer.  \<open>process_query\<close> rejects
  queries outside the domain before any call and turns every exception into an
  \<open>"Error: ..."\<close> answer.  The prompts are the source's f-strings, white space
  included.
\<close>

definition system_prompt :: "string \<Rightarrow> string" where
  \<open>system_prompt user_query =
     ''\<newline>    You are the UET AI Agent. Protocol:\<newline>    1. If the user asks about UET facts, you MUST search. Output: Action: Search [query]\<newline>    2. If it'' @ [CHR 0x27] @ ''s just "Hi", reply normally.\<newline>    \<newline>    User: ''
     @ user_query @ ''\<newline>    ''\<close>

definition final_prompt :: "string \<Rightarrow> string \<Rightarrow> string" where
  "final_prompt user_query observation =
     ''\<newline>        User: '' @ user_query @ ''\<newline>        Context: '' @ observation @
     ''\<newline>        Answer briefly using the context.\<newline>        ''"

definition fallback_prompt :: "string \<Rightarrow> string \<Rightarrow> string" where
  "fallback_prompt user_query observation =
     ''Context: '' @ observation @ ''\<newline>User: '' @ user_query @ ''\<newline>Answer:''"

definition refusal_words :: "string \<Rightarrow> bool" where
  "refusal_words response \<longleftrightarrow>
     py_contains ''sorry'' (py_lower response) \<or> py_contains ''model'' (py_lower response)"

text \<open>\<open>match.group(1).strip()\<close> on a group that did not participate would raise
  \<open>AttributeError\<close>; the model keeps that branch (it is unreachable, see below).\<close>

definition none_strip_error :: exn where
  "none_strip_error = ''NoneType'' @ [CHR 0x27] @ '' object has no attribute '' @ [CHR 0x27] @ ''strip'' @ [CHR 0x27]"

definition run_manual_agent :: "services \<Rightarrow> string \<Rightarrow> string backend" where
  "run_manual_agent svc user_query =
     ebind (llm_call svc (system_prompt user_query)) (\<lambda>response_1.
       case directive_match response_1 of
         Some m \<Rightarrow>
           (case group1 response_1 m of
              None \<Rightarrow> eraise (CHR 0x27 # none_strip_error)
            | Some g \<Rightarrow>
                ebind (search_prospectus svc (search_term_of g)) (\<lambda>observation.
                  llm_call svc (final_prompt user_query observation)))
       | None \<Rightarrow>
           (if refusal_words response_1
            then ebind (search_prospectus svc user_query) (\<lambda>observation.
                   llm_call svc (fallback_prompt user_query observation))
            else ereturn response_1))"

definition reject_message :: string where
  "reject_message = ''I only answer department information.''"

definition process_query :: "services \<Rightarrow> string \<Rightarrow> string \<times> event list" where
  "process_query svc user_query =
     (if \<not> is_department_related user_query then (reject_message, [])
      else ecatch (run_manual_agent svc user_query) (\<lambda>e. ''Error: '' @ e) [])"

text \<open>The answer the outer \<open>except\<close> of \<open>process_query\<close> makes of the last
  model call.\<close>

definition answer_text :: "exn + string \<Rightarrow> string" where
  "answer_text res = (case res of Inl e \<Rightarrow> ''Error: '' @ e | Inr a \<Rightarrow> a)"

section \<open>The controller, path by path\<close>

lemma run_manual_agent_turn1_error:
  "llm svc (system_prompt q) = Inl e \<Longrightarrow>
   run_manual_agent svc q tr = (Inl e, tr @ [LlmInvoke (system_prompt q)])"
  by (simp add: run_manual_agent_def)

lemma run_manual_agent_search:
  "llm svc (system_prompt q) = Inr r \<Longrightarrow> directive_match r = Some m \<Longrightarrow> group1 r m = Some g \<Longrightarrow>
   run_manual_agent svc q tr =
     (llm svc (final_prompt q (prospectus_context svc (search_term_of g))),
      tr @ [LlmInvoke (system_prompt q), RetrieverInvoke (search_term_of g),
            LlmInvoke (final_prompt q (prospectus_context svc (search_term_of g)))])"
  by (simp add: run_manual_agent_def)

lemma run_manual_agent_fallback:
  "llm svc (system_prompt q) = Inr r \<Longrightarrow> directive_match r = None \<Longrightarrow> refusal_words r \<Longrightarrow>
   run_manual_agent svc q tr =
     (llm svc (fallback_prompt q (prospectus_context svc q)),
      tr @ [LlmInvoke (system_prompt q), RetrieverInvoke q,
            LlmInvoke (fallback_prompt q (prospectus_context svc q))])"
  by (simp add: run_manual_agent_def)

lemma run_manual_agent_direct:
  "llm svc (system_prompt q) = Inr r \<Longrightarrow> directive_match r = None \<Longrightarrow> \<not> refusal_words r \<Longrightarrow>
   run_manual_agent svc q tr = (Inr r, tr @ [LlmInvoke (system_prompt q)])"
  by (simp add: run_manual_agent_def)

lemma directive_group_exists:
  "directive_match r = Some m \<Longrightarrow> \<exists>g. group1 r m = Some g"
  using directive_group_text by metis

lemma has_directive_match: "has_directive r \<longleftrightarrow> directive_match r \<noteq> None"
  by (simp add: directive_match_None_iff)

lemmas run_manual_agent_paths =
  run_manual_agent_turn1_error run_manual_agent_search run_manual_agent_fallback run_manual_agent_direct

lemma process_query_in_domain:
  "is_department_related q \<Longrightarrow>
   process_query svc q = (case run_manual_agent svc q [] of (res, tr) \<Rightarrow> (answer_text res, tr))"
  by (simp add: process_query_def answer_text_def split: prod.split sum.split)

text \<open>Every run takes one of four paths; this case analysis carries the theorems.\<close>

lemma process_query_cases:
  obtains (reject) "\<not> is_department_related q" "process_query svc q = (reject_message, [])"
  | (error1) e where "is_department_related q" "llm svc (system_prompt q) = Inl e"
      "process_query svc q = (''Error: '' @ e, [LlmInvoke (system_prompt q)])"
  | (search) r m g where "is_department_related q" "llm svc (system_prompt q) = Inr r"
      "directive_match r = Some m" "group1 r m = Some g"
      "process_query svc q =
        (answer_text (llm svc (final_prompt q (prospectus_context svc (search_term_of g)))),
         [LlmInvoke (system_prompt q), RetrieverInvoke (search_term_of g),
          LlmInvoke (final_prompt q (prospectus_context svc (search_term_of g)))])"
  | (fallback) r where "is_department_related q" "llm svc (system_prompt q) = Inr r"
      "directive_match r = None" "refusal_words r"
      "process_query svc q =
        (answer_text (llm svc (fallback_prompt q (prospectus_context svc q))),
         [LlmInvoke (system_prompt q), RetrieverInvoke q,
          LlmInvoke (fallback_prompt q (prospectus_context svc q))])"
  | (direct) r where "is_department_related q" "llm svc (system_prompt q) = Inr r"
      "directive_match r = None" "\<not> refusal_words r"
      "process_query svc q = (r, [LlmInvoke (system_prompt q)])"
proof (cases "is_department_related q")
  case False
  then show ?thesis using reject by (simp add: process_query_def)
next
  case True
  show ?thesis
  proof (cases "llm svc (system_prompt q)")
    case (Inl e)
    then show ?thesis using True error1
      by (simp add: process_query_in_domain run_manual_agent_paths answer_text_def)
  next
    case (Inr r)
    show ?thesis
    proof (cases "directive_match r")
      case (Some m)
      then obtain g where "group1 r m = Some g" using directive_group_exists by blast
      then show ?thesis using True Inr Some search
        by (simp add: process_query_in_domain run_manual_agent_paths)
    next
      case None
      then show ?thesis using True Inr fallback direct
        by (cases "refusal_words r") (simp_all add: process_query_in_domain run_manual_agent_paths answer_text_def)
    qed
  qed
qed

section \<open>Properties of the controller\<close>

text \<open>C3: A query outside the domain is rejected with the fixed message before any
  call to the model or the index.\<close>

theorem process_query_out_of_domain:
  "\<not> is_department_related q \<Longrightarrow> process_query svc q = (reject_message, [])"
  by (simp add: process_query_def)

text \<open>C1: The calls of one request are one of three sequences: none; the routing call
  alone; the routing call, one retrieval and one final call.  So a request makes at most
  two model calls and at most one retrieval, and a retrieval is always followed by the
  final call.\<close>

theorem process_query_trace_shape:
  "snd (process_query svc q) = [] \<or>
   snd (process_query svc q) = [LlmInvoke (system_prompt q)] \<or>
   (\<exists>t p. snd (process_query svc q) = [LlmInvoke (system_prompt q), RetrieverInvoke t, LlmInvoke p])"
  by (cases rule: process_query_cases [of q svc]) auto

text \<open>C2: Every answer is the rejection message, or the model's output for a prompt
  the request actually sent, or the error text of a model call the request actually
  made: no exception escapes and nothing else reaches the caller.\<close>

theorem process_query_answer_source:
  "fst (process_query svc q) = reject_message \<and> snd (process_query svc q) = [] \<or>
   (\<exists>p. LlmInvoke p \<in> set (snd (process_query svc q)) \<and>
        fst (process_query svc q) = answer_text (llm svc p))"
  by (cases rule: process_query_cases [of q svc]) (auto simp: answer_text_def)

text \<open>C9: A routing response with no directive and no refusal word is the answer,
  verbatim, after the single routing call.\<close>

theorem process_query_direct_answer:
  assumes "is_department_related q" and "llm svc (system_prompt q) = Inr r"
    and "\<not> has_directive r" and "\<not> refusal_words r"
  shows "process_query svc q = (r, [LlmInvoke (system_prompt q)])"
  using assms by (cases rule: process_query_cases [of q svc]) (auto simp: has_directive_match)

text \<open>C7: A routing response in the protocol's own format \<open>Action: Search [t]\<close>
  leads to one retrieval with the normalised \<open>t\<close> and a final prompt holding the
  query and the retrieved context, whose answer is returned.\<close>

theorem process_query_canonical_search:
  assumes "is_department_related q"
    and "llm svc (system_prompt q) = Inr (''Action: Search ['' @ t @ '']'')"
    and "plain_term t"
  shows "process_query svc q =
           (answer_text (llm svc (final_prompt q (prospectus_context svc (search_term_of t)))),
            [LlmInvoke (system_prompt q), RetrieverInvoke (search_term_of t),
             LlmInvoke (final_prompt q (prospectus_context svc (search_term_of t)))])"
proof -
  have "first_match (rx_bt True directive_rx 0 (''Action: Search ['' @ t @ CHR '']'' # []) 0 None)
          = Some (length t + 17, Some (16, 16 + length t))"
    by (rule directive_rx_plain [OF assms(3)]) (simp add: line_end_def)
  then have "directive_match (''Action: Search ['' @ t @ CHR '']'' # [])
          = Some (0, length t + 17, Some (16, 16 + length t))"
    by (simp add: directive_match_def re_search_def rx_first_eq_first_match del: rx_bt.simps)
  moreover have "group1 (''Action: Search ['' @ t @ CHR '']'' # []) (0, length t + 17, Some (16, 16 + length t))
                 = Some t"
    by (simp add: group1_def)
  ultimately show ?thesis
    using assms(1,2) by (cases rule: process_query_cases [of q svc]) auto
qed

text \<open>C8: A routing response without directive that mentions \<open>sorry\<close> or
  \<open>model\<close> (in any case) leads to a retrieval with the original query and the
  short fallback prompt.\<close>

theorem process_query_refusal_fallback:
  assumes "is_department_related q" and "llm svc (system_prompt q) = Inr r"
    and "\<not> has_directive r" and "refusal_words r"
  shows "process_query svc q =
           (answer_text (llm svc (fallback_prompt q (prospectus_context svc q))),
            [LlmInvoke (system_prompt q), RetrieverInvoke q,
             LlmInvoke (fallback_prompt q (prospectus_context svc q))])"
  using assms by (cases rule: process_query_cases [of q svc]) (auto simp: has_directive_match)

text \<open>C10: A failing routing call ends the request with an in-band error text and no
  retrieval.\<close>

theorem process_query_routing_error:
  assumes "is_department_related q" and "llm svc (system_prompt q) = Inl e"
  shows "process_query svc q = (''Error: '' @ e, [LlmInvoke (system_prompt q)])"
  using assms by (cases rule: process_query_cases [of q svc]) auto

text \<open>C11: A failing index does not abort a request that retrieves: the final call is
  still made, with the context \<open>Error.\<close>, and its answer is returned.\<close>

theorem process_query_index_failure_degrades:
  assumes "is_department_related q" and "llm svc (system_prompt q) = Inr r"
    and "has_directive r \<or> refusal_words r" and "\<forall>x. \<exists>e. rank svc x = Inl e"
  shows "\<exists>t p. process_query svc q = (answer_text (llm svc p), [LlmInvoke (system_prompt q), RetrieverInvoke t, LlmInvoke p])
           \<and> py_contains ''Context: Error.'' p"
proof -
  have ctx: "prospectus_context svc x = ''Error.''" for x
  proof -
    obtain e where "rank svc x = Inl e" using assms(4) by blast
    then show ?thesis by (simp add: prospectus_context_def retriever_invoke_def)
  qed
  have "final_prompt q ''Error.'' = (''\<newline>        User: '' @ q @ ''\<newline>        '') @ ''Context: Error.'' @
          ''\<newline>        Answer briefly using the context.\<newline>        ''"
    by (simp add: final_prompt_def)
  then have fin: "py_contains ''Context: Error.'' (final_prompt q ''Error.'')"
    by (simp only: py_contains_append)
  have "fallback_prompt q ''Error.'' = [] @ ''Context: Error.'' @ (''\<newline>User: '' @ q @ ''\<newline>Answer:'')"
    by (simp add: fallback_prompt_def)
  then have fb: "py_contains ''Context: Error.'' (fallback_prompt q ''Error.'')"
    by (simp only: py_contains_append)
  show ?thesis
    using assms(1-3) ctx fin fb
    by (cases rule: process_query_cases [of q svc]) (auto simp: has_directive_match)
qed


text \<open>C29: Whenever lines 49--52 yield a search term, the controller retrieves with
  exactly that term and asks the final question with its context; this includes the
  empty term of \<open>Action: Search []\<close>, which the spec says is to be treated as
  invalid or absent.\<close>

theorem process_query_uses_parsed_term:
  assumes "is_department_related q"
    and "llm svc (system_prompt q) = Inr r"
    and "parsed_search_term r = Some t"
  shows "snd (process_query svc q) =
           [LlmInvoke (system_prompt q), RetrieverInvoke t,
            LlmInvoke (final_prompt q (prospectus_context svc t))]"
proof -
  obtain m g where "directive_match r = Some m" "group1 r m = Some g" "search_term_of g = t"
    using assms(3) by (auto simp: parsed_search_term_def split: option.splits)
  then show ?thesis
    using assms(1,2) by (cases rule: process_query_cases [of q svc]) auto
qed

section \<open>Witnesses\<close>

theorem process_query_out_of_domain_witness:
  "process_query \<lparr>llm = (\<lambda>_. Inr ''Hello!''), rank = (\<lambda>_. Inr [])\<rparr> ''Hi'' = (reject_message, [])"
proof -
  have h: "\<not> is_department_related ''Hi''" by code_simp
  show ?thesis using h process_query_out_of_domain [OF h] by simp
qed

theorem process_query_canonical_search_witness:
  "snd (process_query \<lparr>llm = (\<lambda>p. if p = system_prompt ''What is the fee for the CS program?''
                     then Inr ''Action: Search [CS program fee]'' else Inr ''It is listed.''),
        rank = (\<lambda>_. Inr [])\<rparr> ''What is the fee for the CS program?'') ! 1
     = RetrieverInvoke (search_term_of ''CS program fee'')"
proof -
  let ?q = "''What is the fee for the CS program?''"
  let ?svc = "\<lparr>llm = (\<lambda>p. if p = system_prompt ?q
                     then Inr ''Action: Search [CS program fee]'' else Inr ''It is listed.''),
        rank = (\<lambda>_. Inr [])\<rparr>"
  have h1: "is_department_related ?q" by code_simp
  have h2: "llm ?svc (system_prompt ?q) = Inr (''Action: Search ['' @ ''CS program fee'' @ '']'')" by simp
  have h3: "plain_term ''CS program fee''" by (simp add: plain_term_def)
  show ?thesis using process_query_canonical_search [OF h1 h2 h3] h1 h2 h3 by simp
qed

theorem process_query_refusal_fallback_witness:
  "snd (process_query \<lparr>llm = (\<lambda>_. Inr ''Sorry, I cannot help with that as a language model.''), rank = (\<lambda>_. Inr [])\<rparr>
     ''Where is the UET library?'') ! 1 = RetrieverInvoke ''Where is the UET library?''"
proof -
  let ?q = "''Where is the UET library?''"
  let ?r = "''Sorry, I cannot help with that as a language model.''"
  let ?svc = "\<lparr>llm = (\<lambda>_. Inr ?r), rank = (\<lambda>_. Inr [])\<rparr> :: services"
  have h1: "is_department_related ?q" by code_simp
  have h2: "llm ?svc (system_prompt ?q) = Inr ?r" by simp
  have h3: "\<not> has_directive ?r" by code_simp
  have h4: "refusal_words ?r" by code_simp
  show ?thesis using process_query_refusal_fallback [OF h1 h2 h3 h4] h1 h2 h3 h4 by simp
qed

theorem process_query_direct_answer_witness:
  "process_query \<lparr>llm = (\<lambda>_. Inr ''Hello! Ask me about UET.''), rank = (\<lambda>_. Inr [])\<rparr>
     ''Hello, which campus are you?'' =
     (''Hello! Ask me about UET.'', [LlmInvoke (system_prompt ''Hello, which campus are you?'')])"
proof -
  let ?q = "''Hello, which campus are you?''"
  let ?r = "''Hello! Ask me about UET.''"
  let ?svc = "\<lparr>llm = (\<lambda>_. Inr ?r), rank = (\<lambda>_. Inr [])\<rparr> :: services"
  have h1: "is_department_related ?q" by code_simp
  have h2: "llm ?svc (system_prompt ?q) = Inr ?r" by simp
  have h3: "\<not> has_directive ?r" by code_simp
  have h4: "\<not> refusal_words ?r" by code_simp
  show ?thesis using process_query_direct_answer [OF h1 h2 h3 h4] h1 h2 h3 h4 by simp
qed

theorem process_query_routing_error_witness:
  "process_query \<lparr>llm = (\<lambda>_. Inl ''connection refused''), rank = (\<lambda>_. Inr [])\<rparr> ''hostel fee''
     = (''Error: connection refused'', [LlmInvoke (system_prompt ''hostel fee'')])"
proof -
  let ?svc = "\<lparr>llm = (\<lambda>_. Inl ''connection refused''), rank = (\<lambda>_. Inr [])\<rparr> :: services"
  have h1: "is_department_related ''hostel fee''" by code_simp
  have h2: "llm ?svc (system_prompt ''hostel fee'') = Inl ''connection refused''" by simp
  show ?thesis using process_query_routing_error [OF h1 h2] h1 h2 by simp
qed

theorem process_query_index_failure_degrades_witness:
  "(\<exists>t p. process_query \<lparr>llm = (\<lambda>_. Inr ''Action: Search [merit]''), rank = (\<lambda>_. Inl ''index unavailable'')\<rparr>
       ''merit list'' = (answer_text (Inr ''Action: Search [merit]''),
         [LlmInvoke (system_prompt ''merit list''), RetrieverInvoke t, LlmInvoke p])
     \<and> py_contains ''Context: Error.'' p)"
proof -
  let ?r = "''Action: Search [merit]''"
  let ?svc = "\<lparr>llm = (\<lambda>_. Inr ?r), rank = (\<lambda>_. Inl ''index unavailable'')\<rparr> :: services"
  have h1: "is_department_related ''merit list''" by code_simp
  have h2: "llm ?svc (system_prompt ''merit list'') = Inr ?r" by simp
  have h3: "has_directive ?r \<or> refusal_words ?r" by code_simp
  have h4: "\<forall>x. \<exists>e. rank ?svc x = Inl e" by simp
  show ?thesis using process_query_index_failure_degrades [OF h1 h2 h3 h4] h1 h2 h3 h4 by simp
qed

theorem process_query_uses_parsed_term_witness:
  "snd (process_query \<lparr>llm = (\<lambda>p. Inr ''Action: Search []''), rank = (\<lambda>_. Inr [])\<rparr> ''hostel fee'') =
     [LlmInvoke (system_prompt ''hostel fee''), RetrieverInvoke [],
      LlmInvoke (final_prompt ''hostel fee'' ''No info found.'')]"
proof -
  have h1: "is_department_related ''hostel fee''" by code_simp
  have h3: "parsed_search_term ''Action: Search []'' = Some []" by code_simp
  show ?thesis
    using process_query_uses_parsed_term [OF h1 _ h3, of "\<lparr>llm = (\<lambda>p. Inr ''Action: Search []''), rank = (\<lambda>_. Inr [])\<rparr>"]
    by (simp add: prospectus_context_def retriever_invoke_def format_context_def)
qed

end
