(* ===== verification/Http.thy ===== *)
theory Http
  imports Prelude
begin

text \<open>
  The interface between the Streamlit page (\<open>src/frontend/app.py\<close>) and the API
  (\<open>src/backend/main.py\<close>): JSON values as \<open>json.loads\<close> produces them, Python
  subscripting \<open>obj[key]\<close> on such a value with its exceptions, and an HTTP response
  as the page sees it through \<open>requests\<close> (status code and the body, \<open>None\<close>
  when the body is no JSON document).  Numbers are restricted to integers.
\<close>

datatype json =
    JNull
  | JBool bool
  | JNum int
  | JStr string
  | JList "json list"
  | JObj "(string \<times> json) list"

text \<open>\<open>json.loads\<close> builds a \<open>dict\<close> in which a later duplicate key overrides an
  earlier one; \<open>obj[key]\<close> raises \<open>KeyError\<close> on a missing key and
  \<open>TypeError\<close> on a value that is no object.\<close>

definition json_field :: "(string \<times> json) list \<Rightarrow> string \<Rightarrow> json option" where
  "json_field kvs key = map_of (rev kvs) key"

fun py_getitem :: "json \<Rightarrow> string \<Rightarrow> exn + json" where
  "py_getitem (JObj kvs) key =
     (case json_field kvs key of
        None \<Rightarrow> Inl ([CHR 0x27] @ key @ [CHR 0x27])
      | Some v \<Rightarrow> Inr v)"
| "py_getitem JNull key = Inl (''NoneType'' @ [CHR 0x27] @ '' object is not subscriptable'')"
| "py_getitem (JList xs) key = Inl (''list indices must be integers or slices, not str'')"
| "py_getitem (JStr s) key = Inl (''string indices must be integers, not '' @ [CHR 0x27] @ ''str'' @ [CHR 0x27])"
| "py_getitem (JBool b) key = Inl (''bool'' @ [CHR 0x27] @ '' object is not subscriptable'')"
| "py_getitem (JNum n) key = Inl (''int'' @ [CHR 0x27] @ '' object is not subscriptable'')"

record http_response =
  status_code :: nat
  payload :: "json option"

text \<open>\<open>res.json()\<close>: the decoded body, or \<open>JSONDecodeError\<close>.\<close>

definition response_json :: "http_response \<Rightarrow> ('ev, json) eff" where
  "response_json res =
     (case payload res of None \<Rightarrow> eraise ''Expecting value: line 1 column 1 (char 0)'' | Some j \<Rightarrow> ereturn j)"

text \<open>A client's view of an HTTP POST to a URL with a JSON body: the response, or the
  exception \<open>requests\<close> raises (no connection, timeout), with the calls the server
  made recorded in the trace.\<close>

type_synonym 'ev transport = "string \<Rightarrow> json \<Rightarrow> ('ev, http_response) eff"

definition esum :: "exn + 'a \<Rightarrow> ('ev, 'a) eff" where
  "esum r tr = (r, tr)"

lemma json_field_Cons [simp]:
  "json_field ((k, v) # kvs) key =
     (case json_field kvs key of None \<Rightarrow> (if k = key then Some v else None) | Some w \<Rightarrow> Some w)"
  by (simp add: json_field_def map_of_append map_add_def split: option.split)

lemma json_field_Nil [simp]: "json_field [] key = None"
  by (simp add: json_field_def)

lemma esum_apply [simp]: "esum r tr = (r, tr)"
  by (simp add: esum_def)

lemma response_json_apply [simp]:
  "response_json res tr = (case payload res of None \<Rightarrow> Inl ''Expecting value: line 1 column 1 (char 0)'' | Some j \<Rightarrow> Inr j, tr)"
  by (simp add: response_json_def split: option.split)

end
