(* ===== verification/Api.thy ===== *)
theory Api
  imports Agent Http
begin

text \<open>
  The request boundary \<open>src/backend/main.py\<close>: the body model \<open>ChatRequest\<close>
  (lines 8--9) as the validation FastAPI performs with pydantic (a JSON object whose
  field \<open>message\<close> is a string; other fields are ignored, anything else is
  answered with status 422 and FastAPI's error list \<open>detail\<close>, a parameter here),
  the handler \<open>chat_endpoint\<close> (lines 11--17), which returns
  \<open>{"response": process_query(request.message)}\<close>, and the routing of the
  application: \<open>POST /chat\<close>, FastAPI's default documentation routes (405 on a
  POST) and Starlette's redirect of a trailing slash (307); any other path is 404.
  The handler raises nothing (\<open>process_query\<close> catches every exception), so no
  500 response is modelled.
\<close>

record chat_request =
  message :: string

definition parse_chat_request :: "json \<Rightarrow> chat_request option" where
  "parse_chat_request body =
     (case body of
        JObj kvs \<Rightarrow>
          (case json_field kvs ''message'' of Some (JStr s) \<Rightarrow> Some \<lparr>message = s\<rparr> | _ \<Rightarrow> None)
      | _ \<Rightarrow> None)"

definition chat_endpoint :: "services \<Rightarrow> chat_request \<Rightarrow> json \<times> event list" where
  "chat_endpoint svc request =
     (case process_query svc (message request) of
        (response_text, tr) \<Rightarrow> (JObj [(''response'', JStr response_text)], tr))"

text \<open>The routes of the application: \<open>POST /chat\<close> (line 11) and the four routes
  \<open>FastAPI(...)\<close> registers by default on line 6 (\<open>openapi_url\<close>, \<open>docs_url\<close>,
  \<open>swagger_ui_oauth2_redirect_url\<close>, \<open>redoc_url\<close>), which accept \<open>GET\<close> and
  \<open>HEAD\<close> only.\<close>

definition route_methods :: "string \<Rightarrow> string list option" where
  "route_methods path =
     (if path = ''/chat'' then Some [''POST'']
      else if path \<in> set [''/openapi.json'', ''/docs'', ''/docs/oauth2-redirect'', ''/redoc'']
      then Some [''GET'', ''HEAD''] else None)"

text \<open>Starlette's \<open>redirect_slashes\<close>: a path that matches no route is tried with its
  trailing slashes removed (\<open>rstrip("/")\<close>), or with one added.\<close>

definition slash_toggle :: "string \<Rightarrow> string" where
  "slash_toggle path =
     (if path \<noteq> [] \<and> last path = CHR ''/'' then rev (dropWhile (\<lambda>c. c = CHR ''/'') (rev path))
      else path @ ''/'')"

text \<open>A POST to the application, as Starlette's router dispatches it: a route of the
  path that does not accept POST answers 405; a path without a route is redirected
  (307, empty body) when the toggled path has a route, and answered 404 otherwise; the
  body of \<open>POST /chat\<close> is validated (422) before the handler runs.\<close>

definition api_post :: "services \<Rightarrow> json \<Rightarrow> string \<Rightarrow> json \<Rightarrow> http_response \<times> event list" where
  "api_post svc detail path body =
     (case route_methods path of
        Some ms \<Rightarrow>
          (if ''POST'' \<notin> set ms
           then (\<lparr>status_code = 405, payload = Some (JObj [(''detail'', JStr ''Method Not Allowed'')])\<rparr>, [])
           else case parse_chat_request body of
             None \<Rightarrow> (\<lparr>status_code = 422, payload = Some (JObj [(''detail'', detail)])\<rparr>, [])
           | Some request \<Rightarrow>
               (case chat_endpoint svc request of (j, tr) \<Rightarrow> (\<lparr>status_code = 200, payload = Some j\<rparr>, tr)))
      | None \<Rightarrow>
          (if path \<noteq> ''/'' \<and> route_methods (slash_toggle path) \<noteq> None
           then (\<lparr>status_code = 307, payload = None\<rparr>, [])
           else (\<lparr>status_code = 404, payload = Some (JObj [(''detail'', JStr ''Not Found'')])\<rparr>, [])))"

text \<open>\<open>uvicorn.run(app, host="0.0.0.0", port=8000)\<close> (lines 19--20): a POST
  to \<open>http://localhost:8000\<close> followed by a path reaches the application with that
  path; the calls the handler makes extend the trace.  Any other address is refused.\<close>

definition server_base :: string where
  "server_base = ''http://localhost:8000''"

definition uvicorn_transport :: "services \<Rightarrow> json \<Rightarrow> event transport" where
  "uvicorn_transport svc detail url body tr =
     (if prefix server_base url
      then (case api_post svc detail (drop (length server_base) url) body of
              (res, calls) \<Rightarrow> (Inr res, tr @ calls))
      else (Inl ''Connection refused'', tr))"

lemma parse_chat_request_Some_iff:
  "parse_chat_request body = Some request \<longleftrightarrow>
     (\<exists>kvs. body = JObj kvs \<and> json_field kvs ''message'' = Some (JStr (message request)))"
  by (auto simp: parse_chat_request_def split: json.splits option.splits)

lemma api_post_chat_valid:
  "parse_chat_request body = Some request \<Longrightarrow>
   api_post svc detail ''/chat'' body =
     (\<lparr>status_code = 200,
       payload = Some (JObj [(''response'', JStr (fst (process_query svc (message request))))])\<rparr>,
      snd (process_query svc (message request)))"
  by (simp add: api_post_def route_methods_def chat_endpoint_def split: prod.split)

lemma api_post_cases:
  obtains (other_route) "path \<noteq> ''/chat''" "status_code (fst (api_post svc detail path body)) \<in> {307, 404, 405}"
      "snd (api_post svc detail path body) = []"
  | (invalid) "path = ''/chat''" "parse_chat_request body = None"
      "api_post svc detail path body = (\<lparr>status_code = 422, payload = Some (JObj [(''detail'', detail)])\<rparr>, [])"
  | (valid) request where "path = ''/chat''" "parse_chat_request body = Some request"
      "api_post svc detail path body =
        (\<lparr>status_code = 200,
          payload = Some (JObj [(''response'', JStr (fst (process_query svc (message request))))])\<rparr>,
         snd (process_query svc (message request)))"
proof (cases "path = ''/chat''")
  case True
  then show ?thesis using that(2,3) api_post_chat_valid
    by (cases "parse_chat_request body") (auto simp: api_post_def route_methods_def)
next
  case False
  then have "route_methods path = None \<or> route_methods path = Some [''GET'', ''HEAD'']"
    by (simp add: route_methods_def)
  with False show ?thesis using that(1) by (auto simp: api_post_def)
qed

section \<open>Properties of the request boundary\<close>

text \<open>C15: The API answers every POST with status 200, 307, 404, 405 or 422, and
  with 200 exactly for the route \<open>/chat\<close> with a body that validates: a failing
  model or index never surfaces as an HTTP error, as section 6 of the spec requires.\<close>

theorem api_post_status:
  "status_code (fst (api_post svc detail path body)) \<in> {200, 307, 404, 405, 422} \<and>
   (status_code (fst (api_post svc detail path body)) = 200 \<longleftrightarrow>
      path = ''/chat'' \<and> parse_chat_request body \<noteq> None)"
  by (cases rule: api_post_cases [of path svc detail body]) auto

text \<open>C16: A request the API does not answer with 200 makes no call on the model or
  the index.\<close>

theorem api_post_error_no_calls:
  "status_code (fst (api_post svc detail path body)) \<noteq> 200 \<Longrightarrow>
   snd (api_post svc detail path body) = []"
  by (cases rule: api_post_cases [of path svc detail body]) auto

section \<open>Witnesses\<close>

theorem api_post_error_no_calls_witness:
  "snd (api_post \<lparr>llm = \<lambda>p. Inr ''Hello'', rank = \<lambda>q. Inr []\<rparr> JNull ''/health'' (JObj [(''message'', JStr ''fee'')])) = []"
  by (rule api_post_error_no_calls) (simp add: api_post_def route_methods_def slash_toggle_def)

end
