(* ===== verification/Frontend.thy ===== *)
theory Frontend
  imports Http
begin

text \<open>
  The Streamlit page \<open>src/frontend/app.py\<close>.  Streamlit runs the whole script
  again on every interaction; one run is \<open>app_run\<close>, a function of the session
  state (the key \<open>messages\<close>, absent in a fresh session), of the text submitted in
  the chat input during this interaction (\<open>None\<close> when nothing was submitted),
  and of the transport that carries the POST of line 29.  A run initialises the
  history (lines 10--11), shows it (lines 14--16) and, for a non-empty submission,
  appends the user's message, asks the backend and appends the answer (lines
  19--38).  The page title, caption and spinner (lines 4--7, 27) are rendering
  only and not modelled; what a run shows is the list of chat bubbles, in order.
  A new submission while a run is still executing makes Streamlit stop that run at its
  next call into \<open>st\<close>; \<open>app_run_stopped\<close> is the effect of a run stopped there,
  and the reachable states admit stopped runs between completed ones.
  \<open>res.json()["response"]\<close> may be any JSON value, so a message's content is a
  \<open>json\<close> value.
\<close>

record chat_message =
  role :: string
  content :: json

record session =
  messages :: "chat_message list option"

definition chat_url :: string where
  "chat_url = ''http://localhost:8000/chat''"

definition request_body :: "string \<Rightarrow> json" where
  "request_body prompt = JObj [(''message'', JStr prompt)]"

definition api_error_answer :: string where
  "api_error_answer = ''Error: API returned an error.''"

definition backend_down_answer :: string where
  "backend_down_answer =
     ''Error: Backend is not running. Please run '' @ [CHR 0x27] @ ''python backend/main.py'' @ [CHR 0x27] @ ''.''"

text \<open>Lines 28--35: the bare \<open>except:\<close> catches whatever the POST, \<open>res.json()\<close>
  and the subscript raise.\<close>

definition fetch_answer :: "'ev transport \<Rightarrow> string \<Rightarrow> 'ev list \<Rightarrow> json \<times> 'ev list" where
  "fetch_answer post prompt =
     ecatch
       (ebind (post chat_url (request_body prompt)) (\<lambda>res.
          if status_code res = 200
          then ebind (response_json res) (\<lambda>j. esum (py_getitem j ''response''))
          else ereturn (JStr api_error_answer)))
       (\<lambda>_. JStr backend_down_answer)"

definition init_session :: "session \<Rightarrow> session" where
  "init_session st = (case messages st of None \<Rightarrow> st\<lparr>messages := Some []\<rparr> | Some _ \<Rightarrow> st)"

definition history :: "session \<Rightarrow> chat_message list" where
  "history st = (case messages st of None \<Rightarrow> [] | Some ms \<Rightarrow> ms)"

definition append_message :: "chat_message \<Rightarrow> session \<Rightarrow> session" where
  "append_message m st = st\<lparr>messages := Some (history st @ [m])\<rparr>"

definition app_run ::
  "'ev transport \<Rightarrow> string option \<Rightarrow> session \<Rightarrow> 'ev list \<Rightarrow> (session \<times> chat_message list) \<times> 'ev list"
where
  "app_run post input st0 tr =
     (let st = init_session st0 in
      case input of
        Some prompt \<Rightarrow>
          (if prompt \<noteq> [] then
             (let user_msg = \<lparr>role = ''user'', content = JStr prompt\<rparr>;
                  st1 = append_message user_msg st;
                  (answer, tr') = fetch_answer post prompt tr;
                  bot_msg = \<lparr>role = ''assistant'', content = answer\<rparr>
              in ((append_message bot_msg st1, history st @ [user_msg, bot_msg]), tr'))
           else ((st, history st), tr))
      | None \<Rightarrow> ((st, history st), tr))"

text \<open>Where a run can be stopped by a rerun request: Streamlit raises in the script
  thread at its next call into \<open>st\<close>.  Those calls are, in order, the header (lines
  4--7, before the initialisation), the display loop and the chat input (lines 14--19,
  before the append of line 21), the bubble and spinner of lines 22--27 (before the
  POST of line 29), and \<open>st.markdown(answer)\<close> on line 37, after the POST has
  returned and before the answer is appended on line 38.\<close>

datatype run_stop = StopInHeader | StopBeforeAppend | StopBeforeRequest | StopAfterRequest

text \<open>The submission a run acts on: \<open>prompt := st.chat_input(...)\<close> is truthy
  (line 19).\<close>

definition submission :: "string option \<Rightarrow> string option" where
  "submission input = (case input of Some prompt \<Rightarrow> (if prompt \<noteq> [] then Some prompt else None) | None \<Rightarrow> None)"

definition app_run_stopped ::
  "'ev transport \<Rightarrow> run_stop \<Rightarrow> string option \<Rightarrow> session \<Rightarrow> 'ev list \<Rightarrow> session \<times> 'ev list"
where
  "app_run_stopped post at input st0 tr =
     (case at of
        StopInHeader \<Rightarrow> (st0, tr)
      | StopBeforeAppend \<Rightarrow> (init_session st0, tr)
      | StopBeforeRequest \<Rightarrow>
          (case submission input of
             None \<Rightarrow> (init_session st0, tr)
           | Some prompt \<Rightarrow> (append_message \<lparr>role = ''user'', content = JStr prompt\<rparr> (init_session st0), tr))
      | StopAfterRequest \<Rightarrow>
          (case submission input of
             None \<Rightarrow> (init_session st0, tr)
           | Some prompt \<Rightarrow>
               (append_message \<lparr>role = ''user'', content = JStr prompt\<rparr> (init_session st0),
                snd (fetch_answer post prompt tr))))"

text \<open>The shape of a history the page builds: every message is a user prompt (a
  non-empty string) or an answer, and every answer directly follows a prompt.  A
  prompt whose run was stopped has no answer, so prompts and answers need not
  alternate.\<close>

fun is_prompt :: "json \<Rightarrow> bool" where
  "is_prompt (JStr p) = (p \<noteq> [])"
| "is_prompt _ = False"

fun answers_follow_prompts :: "chat_message list \<Rightarrow> bool" where
  "answers_follow_prompts [] = True"
| "answers_follow_prompts [m] \<longleftrightarrow> role m = ''user'' \<and> is_prompt (content m)"
| "answers_follow_prompts (m1 # m2 # ms) \<longleftrightarrow>
     role m1 = ''user'' \<and> is_prompt (content m1) \<and>
     (if role m2 = ''assistant'' then answers_follow_prompts ms else answers_follow_prompts (m2 # ms))"

text \<open>The states a browser tab and the backend's record of calls can be in,
  for a given transport: a fresh session with no call made, and whatever a completed
  or a stopped run, with any submission, makes of a reachable state.\<close>

inductive reachable :: "'ev transport \<Rightarrow> session \<Rightarrow> 'ev list \<Rightarrow> bool" for post where
  fresh: "reachable post \<lparr>messages = None\<rparr> []"
| run: "reachable post st tr \<Longrightarrow> app_run post input st tr = ((st', shown), tr') \<Longrightarrow> reachable post st' tr'"
| stopped: "reachable post st tr \<Longrightarrow> app_run_stopped post at input st tr = (st', tr') \<Longrightarrow> reachable post st' tr'"

section \<open>One run of the page\<close>

lemma history_init_session [simp]: "history (init_session st) = history st"
  by (simp add: init_session_def history_def split: option.split)

lemma history_append_message [simp]: "history (append_message m st) = history st @ [m]"
  by (simp add: append_message_def history_def)

lemma messages_init_session: "messages (init_session st) \<noteq> None"
  by (simp add: init_session_def split: option.split)

lemma app_run_submit_eq:
  assumes "prompt \<noteq> []" and "fetch_answer post prompt tr = (answer, tr')"
  shows "app_run post (Some prompt) st tr =
    ((append_message \<lparr>role = ''assistant'', content = answer\<rparr>
        (append_message \<lparr>role = ''user'', content = JStr prompt\<rparr> (init_session st)),
      history st @ [\<lparr>role = ''user'', content = JStr prompt\<rparr>, \<lparr>role = ''assistant'', content = answer\<rparr>]),
     tr')"
  using assms by (simp add: app_run_def Let_def)

lemma app_run_idle_eq:
  assumes "input = None \<or> input = Some []"
  shows "app_run post input st tr = ((init_session st, history st), tr)"
  using assms by (auto simp: app_run_def)

lemma fetch_answer_cases:
  obtains (down) e tr' where "post chat_url (request_body prompt) tr = (Inl e, tr')"
      "fetch_answer post prompt tr = (JStr backend_down_answer, tr')"
  | (api_error) res tr' where "post chat_url (request_body prompt) tr = (Inr res, tr')"
      "status_code res \<noteq> 200" "fetch_answer post prompt tr = (JStr api_error_answer, tr')"
  | (not_json) res tr' where "post chat_url (request_body prompt) tr = (Inr res, tr')"
      "status_code res = 200" "payload res = None"
      "fetch_answer post prompt tr = (JStr backend_down_answer, tr')"
  | (bad_field) res tr' j e where "post chat_url (request_body prompt) tr = (Inr res, tr')"
      "status_code res = 200" "payload res = Some j" "py_getitem j ''response'' = Inl e"
      "fetch_answer post prompt tr = (JStr backend_down_answer, tr')"
  | (answer) res tr' j v where "post chat_url (request_body prompt) tr = (Inr res, tr')"
      "status_code res = 200" "payload res = Some j" "py_getitem j ''response'' = Inr v"
      "fetch_answer post prompt tr = (v, tr')"
proof -
  obtain r tr' where p: "post chat_url (request_body prompt) tr = (r, tr')" by fastforce
  show ?thesis
  proof (cases r)
    case (Inl e)
    then show ?thesis using p down by (simp add: fetch_answer_def)
  next
    case (Inr res)
    show ?thesis
    proof (cases "status_code res = 200")
      case False
      then show ?thesis using p Inr api_error by (simp add: fetch_answer_def)
    next
      case ok: True
      show ?thesis
      proof (cases "payload res")
        case None
        then show ?thesis using p Inr ok not_json by (simp add: fetch_answer_def)
      next
        case (Some j)
        then show ?thesis using p Inr ok bad_field answer
          by (cases "py_getitem j ''response''") (simp_all add: fetch_answer_def)
      qed
    qed
  qed
qed

lemma fetch_answer_ok:
  "post chat_url (request_body prompt) tr = (Inr res, tr') \<Longrightarrow> status_code res = 200 \<Longrightarrow>
   payload res = Some j \<Longrightarrow> py_getitem j ''response'' = Inr v \<Longrightarrow>
   fetch_answer post prompt tr = (v, tr')"
  by (simp add: fetch_answer_def)

lemma answers_follow_prompts_snoc:
  "answers_follow_prompts ms \<Longrightarrow> is_prompt p \<Longrightarrow>
   answers_follow_prompts (ms @ [\<lparr>role = ''user'', content = p\<rparr>]) \<and>
   answers_follow_prompts (ms @ [\<lparr>role = ''user'', content = p\<rparr>, \<lparr>role = ''assistant'', content = a\<rparr>])"
  by (induction ms rule: answers_follow_prompts.induct) auto

lemma submission_Some_iff: "submission input = Some prompt \<longleftrightarrow> input = Some prompt \<and> prompt \<noteq> []"
  by (auto simp: submission_def split: option.splits)

lemma submission_None_iff: "submission input = None \<longleftrightarrow> input = None \<or> input = Some []"
  by (auto simp: submission_def split: option.splits)

lemma is_prompt_JStr: "prompt \<noteq> [] \<Longrightarrow> is_prompt (JStr prompt)"
  by simp

lemma app_run_answers_follow_prompts:
  assumes "answers_follow_prompts (history st)"
  shows "answers_follow_prompts (history (fst (fst (app_run post input st tr))))"
proof (cases "input = None \<or> input = Some []")
  case True
  then show ?thesis using assms by (simp add: app_run_idle_eq)
next
  case False
  then obtain prompt where i: "input = Some prompt" "prompt \<noteq> []" by auto
  obtain answer tr' where "fetch_answer post prompt tr = (answer, tr')" by fastforce
  then show ?thesis using i assms answers_follow_prompts_snoc [OF assms is_prompt_JStr [OF i(2)]]
    by (simp add: app_run_submit_eq)
qed

lemma app_run_stopped_answers_follow_prompts:
  assumes "answers_follow_prompts (history st)"
  shows "answers_follow_prompts (history (fst (app_run_stopped post at input st tr)))"
proof (cases "submission input")
  case None
  then show ?thesis using assms by (cases at) (simp_all add: app_run_stopped_def)
next
  case (Some prompt)
  then have "prompt \<noteq> []" by (simp add: submission_Some_iff)
  with Some show ?thesis using assms answers_follow_prompts_snoc [OF assms is_prompt_JStr]
    by (cases at) (simp_all add: app_run_stopped_def)
qed

section \<open>Properties of the page\<close>

text \<open>C17: In every session the page can reach, runs stopped by a new submission
  included, every message is a non-empty user prompt or an answer that directly
  follows a prompt.  A prompt may lack its answer: \<open>[u1, u2, a2]\<close> is reachable
  (see the witness), so prompts and answers do not always alternate.\<close>

theorem reachable_answers_follow_prompts:
  "reachable post st tr \<Longrightarrow> answers_follow_prompts (history st)"
proof (induction rule: reachable.induct)
  case fresh
  then show ?case by (simp add: history_def)
next
  case (run st tr input st' shown tr')
  then show ?case using app_run_answers_follow_prompts [of st post input tr] by simp
next
  case (stopped st tr at input st' tr')
  then show ?case using app_run_stopped_answers_follow_prompts [of st post at input tr] by simp
qed

text \<open>C18: A run with a non-empty submission sends one request, appends the prompt
  and the answer to the history in this order, and shows the earlier history followed
  by the new exchange.\<close>

theorem app_run_submit:
  "prompt \<noteq> [] \<Longrightarrow>
   history (fst (fst (app_run post (Some prompt) st tr))) =
     history st @ [\<lparr>role = ''user'', content = JStr prompt\<rparr>,
                   \<lparr>role = ''assistant'', content = fst (fetch_answer post prompt tr)\<rparr>] \<and>
   snd (fst (app_run post (Some prompt) st tr)) = history (fst (fst (app_run post (Some prompt) st tr))) \<and>
   snd (app_run post (Some prompt) st tr) = snd (fetch_answer post prompt tr)"
  by (cases "fetch_answer post prompt tr") (simp add: app_run_submit_eq)

text \<open>C19: A run without a submission, or with an empty one, sends no request and
  leaves the history as it was; it shows the whole history.\<close>

theorem app_run_no_submission:
  "input = None \<or> input = Some [] \<Longrightarrow>
   history (fst (fst (app_run post input st tr))) = history st \<and>
   snd (fst (app_run post input st tr)) = history st \<and>
   snd (app_run post input st tr) = tr"
  by (simp add: app_run_idle_eq)

text \<open>C20: The bare \<open>except:\<close> of line 34 also catches a failing \<open>res.json()\<close>
  and a missing \<open>response\<close> field: a backend that answered with status 200 is then
  reported as not running.\<close>

theorem fetch_answer_misreports_backend:
  "post chat_url (request_body prompt) tr = (Inr res, tr') \<Longrightarrow> status_code res = 200 \<Longrightarrow>
   (case payload res of None \<Rightarrow> True | Some j \<Rightarrow> isl (py_getitem j ''response'')) \<Longrightarrow>
   fetch_answer post prompt tr = (JStr backend_down_answer, tr')"
  by (cases "payload res") (auto simp: fetch_answer_def isl_def split: sum.split)

section \<open>Witnesses\<close>

theorem reachable_answers_follow_prompts_witness:
  "history (fst (fst (app_run
      (\<lambda>url body tr. (Inr \<lparr>status_code = 200, payload = Some (JObj [(''response'', JStr ''ok'')])\<rparr>, tr))
      (Some ''u2'')
      (fst (app_run_stopped
         (\<lambda>url body tr. (Inr \<lparr>status_code = 200, payload = Some (JObj [(''response'', JStr ''ok'')])\<rparr>, tr))
         StopAfterRequest (Some ''u1'') \<lparr>messages = None\<rparr> ([] :: nat list)))
      ([] :: nat list)))) =
     [\<lparr>role = ''user'', content = JStr ''u1''\<rparr>, \<lparr>role = ''user'', content = JStr ''u2''\<rparr>,
      \<lparr>role = ''assistant'', content = JStr ''ok''\<rparr>] \<and>
   answers_follow_prompts (history (fst (fst (app_run
      (\<lambda>url body tr. (Inr \<lparr>status_code = 200, payload = Some (JObj [(''response'', JStr ''ok'')])\<rparr>, tr))
      (Some ''u2'')
      (fst (app_run_stopped
         (\<lambda>url body tr. (Inr \<lparr>status_code = 200, payload = Some (JObj [(''response'', JStr ''ok'')])\<rparr>, tr))
         StopAfterRequest (Some ''u1'') \<lparr>messages = None\<rparr> ([] :: nat list)))
      ([] :: nat list)))))"
proof -
  let ?post = "\<lambda>url body (tr :: nat list).
    (Inr \<lparr>status_code = 200, payload = Some (JObj [(''response'', JStr ''ok'')])\<rparr>, tr)"
  let ?s = "app_run_stopped ?post StopAfterRequest (Some ''u1'') \<lparr>messages = None\<rparr> []"
  let ?r = "app_run ?post (Some ''u2'') (fst ?s) []"
  have "?s = (fst ?s, snd ?s)" by simp
  then have r1: "reachable ?post (fst ?s) (snd ?s)" by (rule reachable.stopped [OF reachable.fresh])
  have "snd ?s = []" by (simp add: app_run_stopped_def submission_def fetch_answer_def)
  with r1 have "reachable ?post (fst ?s) []" by simp
  moreover have "?r = ((fst (fst ?r), snd (fst ?r)), snd ?r)" by simp
  ultimately have "reachable ?post (fst (fst ?r)) (snd ?r)" by (rule reachable.run)
  then have "answers_follow_prompts (history (fst (fst ?r)))" by (rule reachable_answers_follow_prompts)
  moreover have "history (fst (fst ?r)) =
     [\<lparr>role = ''user'', content = JStr ''u1''\<rparr>, \<lparr>role = ''user'', content = JStr ''u2''\<rparr>,
      \<lparr>role = ''assistant'', content = JStr ''ok''\<rparr>]"
    by (simp add: app_run_def app_run_stopped_def submission_def fetch_answer_def history_def
        init_session_def append_message_def Let_def)
  ultimately show ?thesis by simp
qed

theorem app_run_submit_witness:
  "history (fst (fst (app_run
      (\<lambda>url body tr. (Inr \<lparr>status_code = 200, payload = Some (JObj [(''response'', JStr ''ok'')])\<rparr>, tr))
      (Some ''fee?'') \<lparr>messages = Some []\<rparr> ([] :: nat list)))) =
   [\<lparr>role = ''user'', content = JStr ''fee?''\<rparr>, \<lparr>role = ''assistant'', content = JStr ''ok''\<rparr>]"
  using app_run_submit [of "''fee?''"
      "\<lambda>url body tr. (Inr \<lparr>status_code = 200, payload = Some (JObj [(''response'', JStr ''ok'')])\<rparr>, tr)"
      "\<lparr>messages = Some []\<rparr>" "[] :: nat list"]
  by (simp add: fetch_answer_def history_def)

theorem app_run_no_submission_witness:
  "history (fst (fst (app_run (\<lambda>url body tr. (Inl ''refused'', tr)) None
      \<lparr>messages = Some [\<lparr>role = ''user'', content = JStr ''fee?''\<rparr>]\<rparr> ([] :: nat list)))) =
   [\<lparr>role = ''user'', content = JStr ''fee?''\<rparr>]"
  using app_run_no_submission [of None "\<lambda>url body tr. (Inl ''refused'', tr)"
      "\<lparr>messages = Some [\<lparr>role = ''user'', content = JStr ''fee?''\<rparr>]\<rparr>" "[] :: nat list"]
  by (simp add: history_def)

theorem fetch_answer_misreports_backend_witness:
  "fetch_answer (\<lambda>url body tr. (Inr \<lparr>status_code = 200, payload = Some (JObj [(''answer'', JStr ''ok'')])\<rparr>, tr))
     ''fee?'' ([] :: nat list) = (JStr backend_down_answer, [])"
  using fetch_answer_misreports_backend [of
      "\<lambda>url body tr. (Inr \<lparr>status_code = 200, payload = Some (JObj [(''answer'', JStr ''ok'')])\<rparr>, tr)"
      "''fee?''" "[] :: nat list" "\<lparr>status_code = 200, payload = Some (JObj [(''answer'', JStr ''ok'')])\<rparr>" "[]"]
  by (simp add: isl_def)

end
