(* ===== verification/Ingest.thy ===== *)
theory Ingest
  imports Prelude
begin

text \<open>
  The offline ingestion job \<open>src/backend/ingest.py\<close> (\<open>ingest_data\<close>, lines
  11--45) as explicit state passing over the part of the file system it touches: the
  prospectus PDF (present or not) and the Chroma store at \<open>DB_PATH\<close> (absent, or
  the list of chunks it holds).  The library calls are parameters: loading the PDF
  (\<open>PyPDFLoader.load\<close>, fallible), splitting it
  (\<open>RecursiveCharacterTextSplitter\<close> with chunk size 1000 and overlap 200) and
  embedding the chunks (\<open>OllamaEmbeddings.embed_documents\<close>, fallible: it calls the
  Ollama server).  \<open>Chroma.from_documents\<close> is modelled as langchain-chroma
  implements it: the constructor opens the persistent store, creating an empty one when
  the directory is absent, then \<open>add_texts\<close> embeds all chunks and adds them.  The
  progress messages printed are not modelled.
\<close>

record fs_state =
  pdf_exists :: bool
  vector_db :: "string list option"

record ingest_libs =
  load_pages :: "exn + string list"
  split_documents :: "string list \<Rightarrow> string list"
  embed_documents :: "string list \<Rightarrow> exn + unit"

text \<open>\<open>os.path.join(a, b)\<close> for a relative \<open>b\<close>, and the two paths of lines
  8--9 relative to \<open>os.path.dirname(__file__)\<close>.\<close>

definition py_path_join :: "string \<Rightarrow> string \<Rightarrow> string" where
  "py_path_join a b = (if a = [] then b else if last a = CHR ''/'' then a @ b else a @ ''/'' @ b)"

definition pdf_path :: "string \<Rightarrow> string" where
  "pdf_path here = py_path_join here ''../data/UET_Prospectus.pdf''"

definition db_path :: "string \<Rightarrow> string" where
  "db_path here = py_path_join here ''../data/vector_db''"

definition pdf_not_found :: "string \<Rightarrow> exn" where
  "pdf_not_found here = ''PDF not found at '' @ pdf_path here @ ''. Please add the file.''"

definition rmtree_db :: "fs_state \<Rightarrow> fs_state" where
  "rmtree_db fs = fs\<lparr>vector_db := None\<rparr>"

definition chroma_open :: "fs_state \<Rightarrow> fs_state" where
  "chroma_open fs = (case vector_db fs of None \<Rightarrow> fs\<lparr>vector_db := Some []\<rparr> | Some _ \<Rightarrow> fs)"

definition chroma_from_documents :: "ingest_libs \<Rightarrow> string list \<Rightarrow> fs_state \<Rightarrow> (exn + unit) \<times> fs_state" where
  "chroma_from_documents libs splits fs =
     (let fs1 = chroma_open fs in
      case embed_documents libs splits of
        Inl e \<Rightarrow> (Inl e, fs1)
      | Inr u \<Rightarrow> (Inr (), fs1\<lparr>vector_db := Some (the (vector_db fs1) @ splits)\<rparr>))"

definition ingest_data :: "ingest_libs \<Rightarrow> string \<Rightarrow> fs_state \<Rightarrow> (exn + unit) \<times> fs_state" where
  "ingest_data libs here fs =
     (if \<not> pdf_exists fs then (Inl (pdf_not_found here), fs)
      else case load_pages libs of
        Inl e \<Rightarrow> (Inl e, fs)
      | Inr docs \<Rightarrow>
          (let splits = split_documents libs docs;
               fs1 = (if vector_db fs \<noteq> None then rmtree_db fs else fs)
           in chroma_from_documents libs splits fs1))"

lemma ingest_data_loaded:
  "pdf_exists fs \<Longrightarrow> load_pages libs = Inr docs \<Longrightarrow>
   ingest_data libs here fs =
     (case embed_documents libs (split_documents libs docs) of
        Inl e \<Rightarrow> (Inl e, fs\<lparr>vector_db := Some []\<rparr>)
      | Inr u \<Rightarrow> (Inr (), fs\<lparr>vector_db := Some (split_documents libs docs)\<rparr>))"
  by (simp add: ingest_data_def chroma_from_documents_def chroma_open_def rmtree_db_def Let_def
      split: option.split sum.split)

section \<open>Properties of the ingestion job\<close>

text \<open>C21: Without the PDF, or when loading it fails, the job raises and leaves the
  store as it was; the missing file is reported with its path.\<close>

theorem ingest_data_no_pdf:
  "\<not> pdf_exists fs \<or> load_pages libs = Inl e \<Longrightarrow>
   snd (ingest_data libs here fs) = fs \<and>
   fst (ingest_data libs here fs) = (if pdf_exists fs then Inl e else Inl (pdf_not_found here))"
  by (auto simp: ingest_data_def)

text \<open>C22: A successful run replaces the store by exactly the chunks of the PDF: no
  chunk of an earlier ingestion survives and none is duplicated.\<close>

theorem ingest_data_replaces:
  "pdf_exists fs \<Longrightarrow> load_pages libs = Inr docs \<Longrightarrow>
   embed_documents libs (split_documents libs docs) = Inr u \<Longrightarrow>
   ingest_data libs here fs = (Inr (), fs\<lparr>vector_db := Some (split_documents libs docs)\<rparr>)"
  by (simp add: ingest_data_loaded)

text \<open>C23: The old store is deleted before the chunks are embedded, so a failing
  embedding service leaves an empty store in place of the previous index, whatever the
  previous index held.\<close>

theorem ingest_data_failure_loses_index:
  "pdf_exists fs \<Longrightarrow> load_pages libs = Inr docs \<Longrightarrow>
   embed_documents libs (split_documents libs docs) = Inl e \<Longrightarrow>
   ingest_data libs here fs = (Inl e, fs\<lparr>vector_db := Some []\<rparr>)"
  by (simp add: ingest_data_loaded)

section \<open>Witnesses\<close>

theorem ingest_data_no_pdf_witness:
  "ingest_data \<lparr>load_pages = Inr [''p1''], split_documents = id, embed_documents = (\<lambda>_. Inr ())\<rparr>
     ''backend'' \<lparr>pdf_exists = False, vector_db = Some [''old'']\<rparr> =
   (Inl ''PDF not found at backend/../data/UET_Prospectus.pdf. Please add the file.'',
    \<lparr>pdf_exists = False, vector_db = Some [''old'']\<rparr>)"
  using ingest_data_no_pdf [of "\<lparr>pdf_exists = False, vector_db = Some [''old'']\<rparr>"
      "\<lparr>load_pages = Inr [''p1''], split_documents = id, embed_documents = (\<lambda>_. Inr ())\<rparr>" "''x''" "''backend''"]
  by (simp add: pdf_not_found_def pdf_path_def py_path_join_def prod_eq_iff)

theorem ingest_data_replaces_witness:
  "ingest_data \<lparr>load_pages = Inr [''p1''], split_documents = id, embed_documents = (\<lambda>_. Inr ())\<rparr>
     ''backend'' \<lparr>pdf_exists = True, vector_db = Some [''old'']\<rparr> =
   (Inr (), \<lparr>pdf_exists = True, vector_db = Some [''p1'']\<rparr>)"
  using ingest_data_replaces [of "\<lparr>pdf_exists = True, vector_db = Some [''old'']\<rparr>"
      "\<lparr>load_pages = Inr [''p1''], split_documents = id, embed_documents = (\<lambda>_. Inr ())\<rparr>" "[''p1'']" "()" "''backend''"]
  by simp

theorem ingest_data_failure_loses_index_witness:
  "ingest_data \<lparr>load_pages = Inr [''p1''], split_documents = id, embed_documents = (\<lambda>_. Inl ''connection refused'')\<rparr>
     ''backend'' \<lparr>pdf_exists = True, vector_db = Some [''old'']\<rparr> =
   (Inl ''connection refused'', \<lparr>pdf_exists = True, vector_db = Some []\<rparr>)"
  using ingest_data_failure_loses_index [of "\<lparr>pdf_exists = True, vector_db = Some [''old'']\<rparr>"
      "\<lparr>load_pages = Inr [''p1''], split_documents = id, embed_documents = (\<lambda>_. Inl ''connection refused'')\<rparr>"
      "[''p1'']" "''connection refused''" "''backend''"]
  by simp

end
