(* ===== verification/Spec2Isabelle.thy ===== *)
theory Spec2Isabelle
  imports Api Frontend Ingest
begin

text \<open>
  \<^bold>\<open>A verification library for the UET prospectus agent (iiqbal-gill/mcp).\<close>

  \<^bold>\<open>The program.\<close>  \<open>src/backend/agent.py\<close> answers a question about the UET
  prospectus in one synchronous request: the guardrail \<open>is_department_related\<close>
  rejects queries without a domain keyword; \<open>run_manual_agent\<close> asks the model
  (\<open>ChatOllama\<close>, \<open>gemma3\<close>) whether to search, finds a directive
  \<open>Action: Search [...]\<close> in its answer with the regular expression of line 49,
  normalises the captured term (line 52), retrieves at most two passages with
  \<open>search_prospectus\<close> from the Chroma index and asks the model a second time with
  the passages as context; a routing answer that mentions \<open>sorry\<close> or \<open>model\<close>
  triggers a search with the query itself; any other routing answer is the answer.
  \<open>process_query\<close> turns every exception into an in-band \<open>"Error: ..."\<close> text.
  \<open>src/backend/main.py\<close> exposes \<open>process_query\<close> as \<open>POST /chat\<close>,
  \<open>src/frontend/app.py\<close> is a Streamlit chat page calling that endpoint, and
  \<open>src/backend/ingest.py\<close> rebuilds the index from the prospectus PDF offline.

  \<^bold>\<open>The theories.\<close>
  \<^item> \<open>Prelude\<close>: the Python built-ins the code uses on \<open>str\<close> (\<open>lower\<close>,
    \<open>isspace\<close>, \<open>strip\<close>, \<open>in\<close>, \<open>join\<close>), restricted to Latin-1 (an
    Isabelle \<open>char\<close> is a code point below 256), and the effect type
    \<open>('ev, 'a) eff\<close>: a computation that may raise (\<open>Inl\<close>, the text
    \<open>str(e)\<close>) and records the calls it makes on the outside world in a trace.
  \<^item> \<open>Regex\<close>: Python's \<open>re.search\<close> for the fragment the code uses (literals
    under \<open>IGNORECASE\<close>, \<open>c?\<close>, greedy \<open>\s*\<close>, lazy \<open>.*?\<close>, one group,
    \<open>$\<close> under \<open>MULTILINE\<close>).  \<open>rx_bt\<close> lists every match from a position in
    the order the backtracking engine tries them; \<open>rx_first\<close> is the engine that
    stops at the first success; \<open>re_search\<close> tries start positions left to right.
    Repetition is over single-character classes, so every definition is structural
    recursion and terminates; no fuel is needed.
  \<^item> \<open>Directive\<close>: the pattern of line 49 (\<open>directive_rx\<close>), the match
    (\<open>directive_match\<close>) and the normalisation of line 52
    (\<open>search_term_of\<close>), their composition \<open>parsed_search_term\<close>, and the
    declarative reading \<open>has_directive\<close>.
  \<^item> \<open>Guardrail\<close>: \<open>department_keywords\<close> and \<open>is_department_related\<close>
    (lines 73--80).
  \<^item> \<open>Services\<close>: the interface to the collaborators that are not code of this
    repository: the record \<open>services\<close> of the model call \<open>llm\<close> and the index
    ranking \<open>rank\<close>, both fallible, and the \<open>event\<close>s a request records
    (\<open>LlmInvoke\<close>, \<open>RetrieverInvoke\<close>).
  \<^item> \<open>Retrieval\<close>: the retriever with \<open>k = 2\<close> (line 12) and
    \<open>search_prospectus\<close> (lines 15--28), with \<open>prospectus_context\<close> the text
    it returns.
  \<^item> \<open>Agent\<close>: the prompts (the f-strings of lines 37--43, 58--62 and 68),
    \<open>run_manual_agent\<close> and \<open>process_query\<close>.
  \<^item> \<open>Http\<close>: the interface between page and API: JSON values, Python's
    \<open>obj[key]\<close> on them with its exceptions, the response a client sees, and the
    type \<open>'ev transport\<close> of a POST as the client performs it.
  \<^item> \<open>Api\<close>: \<open>src/backend/main.py\<close>: the validation of \<open>ChatRequest\<close>,
    \<open>chat_endpoint\<close>, the dispatch of a POST by the application
    (\<open>api_post\<close>: \<open>/chat\<close>, FastAPI's default documentation routes, Starlette's
    trailing-slash redirect) and the server of lines 19--20 as a transport
    (\<open>uvicorn_transport\<close>).
  \<^item> \<open>Frontend\<close>: \<open>src/frontend/app.py\<close>: one run of the Streamlit script
    (\<open>app_run\<close>) over the session's message history, the request of lines 28--35
    (\<open>fetch_answer\<close>), a run stopped by a rerun request at one of its \<open>st\<close>
    calls (\<open>app_run_stopped\<close>), and the sessions reachable over a transport
    (\<open>reachable\<close>: one rule for a completed run, one for a stopped run).
  \<^item> \<open>Ingest\<close>: \<open>src/backend/ingest.py\<close>: \<open>ingest_data\<close> as state passing over
    the PDF and the Chroma store, the library calls as parameters.
  \<^item> This theory: the properties that span components.

  \<^bold>\<open>What is proved.\<close>
  \<^item> The controller (\<open>Agent\<close>, C1--C3, C7--C11): the calls of one request are
    none, the routing call, or routing call, one retrieval and one final call (at most
    two model calls); the answer is the rejection, a model output for a prompt actually
    sent or the error text of a call actually made; each of the four paths (direct,
    search, fallback, routing error) does what the code says, in particular the
    protocol format \<open>Action: Search [t]\<close> retrieves with \<open>t\<close>, and a failing
    index degrades to the context \<open>Error.\<close> instead of aborting.
  \<^item> The directive (\<open>Directive\<close>, C4--C6): the pattern matches exactly when the
    lower-cased response contains \<open>action:\<close>, white space, \<open>search\<close>, at the
    leftmost such place; on \<open>Action: Search [t]\<close> it captures \<open>t\<close>; whatever it
    captures is a substring of the response on a single line, so the
    \<open>AttributeError\<close> branch of line 52 is unreachable.
  \<^item> The search term (\<open>Directive\<close> and \<open>Agent\<close>, C26--C30): on both
    formats of the spec, \<open>[t]\<close> and \<open>["t"]\<close>, the term is exactly \<open>t\<close>
    and the controller searches with the term it parsed; four divergences from the
    spec are proved for whole families of inputs: trailing punctuation stays in the
    term, white space inside quotes survives, an empty term is searched, and a
    directive without a term takes the whole next line.
  \<^item> The guardrail (C12): any casing of a keyword anywhere in a query passes.
  \<^item> The retrieval tool (C13--C14): the context is at most 911 characters; the
    sentinels of a failing store and of an empty result are distinguishable from real
    snippets.
  \<^item> The API (C15--C16): status 200 exactly for a valid request to \<open>/chat\<close>,
    otherwise 307, 404, 405 or 422, and then no call is made.
  \<^item> The page (C17--C20): in every reachable session, runs stopped by a new
    submission included, each answer directly follows a non-empty prompt, while a
    prompt can lose its answer (rule induction on \<open>reachable\<close>); a completed
    submission appends prompt and answer, a rerun without one changes nothing and
    sends nothing; the bare \<open>except:\<close> reports a backend that answered 200 without
    the expected body as not running.
  \<^item> Ingestion (C21--C23): a missing PDF changes nothing; success replaces the store
    by exactly the new chunks; a failing embedding service leaves an empty store in
    place of the old index.
  \<^item> Across components (C24--C25): the page shows exactly \<open>process_query\<close>'s
    answer and its calls; over a whole session, stopped runs included, the model is
    called at most twice per user prompt in the history.
  \<^item> The engine (\<open>Regex\<close>): its lemmas carry the proofs above; the early-exit
    engine \<open>rx_first\<close> returns the first result of the backtracking order
    \<open>rx_bt\<close>, and the search the leftmost start with a match.

  \<^bold>\<open>Assumptions on the libraries.\<close>  A Streamlit run asked to stop does so at its
  next call into \<open>st\<close> and executes nothing after it; overlapping runs (fast
  reruns) may interleave the backend's calls in time, and the properties proved about
  calls count them and do not depend on their order.  FastAPI and Starlette dispatch
  as described for \<open>api_post\<close>; \<open>Chroma.from_documents\<close> opens or creates the
  store before it embeds.

  \<^bold>\<open>Not modelled.\<close>  The language model, the embedding model and the vector
  index themselves (third-party services: parameters, any function is allowed); the
  printing of diagnostics; the HTTP wire format (a transport delivers a JSON body and
  returns status and decoded body); Streamlit's rendering (title, caption, spinner:
  a run's output is its list of chat bubbles); PDF loading and text splitting of
  \<open>ingest.py\<close> (library code, parameters).  Characters are Latin-1, JSON numbers
  integers.  No loop of the program is unbounded, so no fuel is used.
\<close>

section \<open>Helpers across components\<close>

lemma parse_request_body [simp]: "parse_chat_request (request_body p) = Some \<lparr>message = p\<rparr>"
  by (simp add: parse_chat_request_def request_body_def)

lemma live_fetch_answer:
  "fetch_answer (uvicorn_transport svc detail) prompt tr =
     (JStr (fst (process_query svc prompt)), tr @ snd (process_query svc prompt))"
proof -
  have url: "chat_url = server_base @ ''/chat''" by (simp add: chat_url_def server_base_def)
  have t: "uvicorn_transport svc detail chat_url (request_body prompt) tr =
      (Inr \<lparr>status_code = 200,
            payload = Some (JObj [(''response'', JStr (fst (process_query svc prompt)))])\<rparr>,
       tr @ snd (process_query svc prompt))"
    unfolding uvicorn_transport_def url using api_post_chat_valid [OF parse_request_body] by simp
  have g: "py_getitem (JObj [(''response'', JStr (fst (process_query svc prompt)))]) ''response'' =
      Inr (JStr (fst (process_query svc prompt)))" by (simp add: json_field_def)
  show ?thesis by (rule fetch_answer_ok [of "uvicorn_transport svc detail" prompt tr, OF t _ _ g]) simp_all
qed

lemma process_query_llm_calls: "length (filter is_llm_event (snd (process_query svc q))) \<le> 2"
  by (cases rule: process_query_cases [of q svc]) simp_all

lemma live_app_run_submit:
  "prompt \<noteq> [] \<Longrightarrow>
   app_run (uvicorn_transport svc detail) (Some prompt) st tr =
    ((append_message \<lparr>role = ''assistant'', content = JStr (fst (process_query svc prompt))\<rparr>
        (append_message \<lparr>role = ''user'', content = JStr prompt\<rparr> (init_session st)),
      history st @ [\<lparr>role = ''user'', content = JStr prompt\<rparr>,
                    \<lparr>role = ''assistant'', content = JStr (fst (process_query svc prompt))\<rparr>]),
     tr @ snd (process_query svc prompt))"
  by (rule app_run_submit_eq) (simp_all add: live_fetch_answer)

lemma live_app_run_stopped_calls:
  "length (filter is_llm_event (snd (app_run_stopped (uvicorn_transport svc detail) at input st tr)))
     \<le> length (filter is_llm_event tr) + 2 * (length (filter (\<lambda>m. role m = ''user'')
           (history (fst (app_run_stopped (uvicorn_transport svc detail) at input st tr))))
         - length (filter (\<lambda>m. role m = ''user'') (history st)))"
proof (cases "submission input")
  case None
  then show ?thesis by (cases at) (simp_all add: app_run_stopped_def)
next
  case (Some prompt)
  then show ?thesis using process_query_llm_calls [of svc prompt]
    by (cases at) (simp_all add: app_run_stopped_def live_fetch_answer)
qed

section \<open>Properties across components\<close>

text \<open>C24: Against the running API, a submission on the page shows exactly the
  controller's answer to the prompt, after the prompt, and the calls made are those of
  \<open>process_query\<close> for that prompt.\<close>

theorem end_to_end_submit:
  "prompt \<noteq> [] \<Longrightarrow>
   history (fst (fst (app_run (uvicorn_transport svc detail) (Some prompt) st tr))) =
     history st @ [\<lparr>role = ''user'', content = JStr prompt\<rparr>,
                   \<lparr>role = ''assistant'', content = JStr (fst (process_query svc prompt))\<rparr>] \<and>
   snd (app_run (uvicorn_transport svc detail) (Some prompt) st tr) = tr @ snd (process_query svc prompt)"
  by (simp add: live_app_run_submit)

text \<open>C25: Over a whole browser session against the running API, runs stopped by a
  new submission included, the model is called at most twice per user prompt in the
  history.\<close>

theorem session_llm_calls_bounded:
  "reachable (uvicorn_transport svc detail) st tr \<Longrightarrow>
   length (filter is_llm_event tr) \<le> 2 * length (filter (\<lambda>m. role m = ''user'') (history st))"
proof (induction rule: reachable.induct)
  case fresh
  then show ?case by simp
next
  case (run st tr input st' shown tr')
  show ?case
  proof (cases "input = None \<or> input = Some []")
    case True
    then show ?thesis using run by (auto simp: app_run_idle_eq)
  next
    case False
    then obtain prompt where "input = Some prompt" "prompt \<noteq> []" by auto
    then show ?thesis using run process_query_llm_calls [of svc prompt] by (auto simp: live_app_run_submit)
  qed
next
  case (stopped st tr at input st' tr')
  have "length (filter (\<lambda>m. role m = ''user'') (history st)) \<le>
        length (filter (\<lambda>m. role m = ''user'') (history st'))"
    using stopped(2) by (cases at; cases "submission input") (auto simp: app_run_stopped_def)
  then show ?case
    using stopped live_app_run_stopped_calls [of svc detail at input st tr] by simp
qed

section \<open>Witnesses\<close>

theorem end_to_end_submit_witness:
  "history (fst (fst (app_run (uvicorn_transport \<lparr>llm = (\<lambda>_. Inr ''Hello!''), rank = (\<lambda>_. Inr [])\<rparr> JNull)
      (Some ''Hi'') \<lparr>messages = None\<rparr> []))) =
   [\<lparr>role = ''user'', content = JStr ''Hi''\<rparr>, \<lparr>role = ''assistant'', content = JStr reject_message\<rparr>]"
proof -
  have h: "\<not> is_department_related ''Hi''" by code_simp
  show ?thesis
    using end_to_end_submit [of "''Hi''" "\<lparr>llm = (\<lambda>_. Inr ''Hello!''), rank = (\<lambda>_. Inr [])\<rparr>" JNull
        "\<lparr>messages = None\<rparr>" "[]"] h
    by (simp add: process_query_def history_def)
qed

theorem session_llm_calls_bounded_witness:
  "length (filter is_llm_event (snd (app_run (uvicorn_transport \<lparr>llm = (\<lambda>_. Inr ''Hello!''), rank = (\<lambda>_. Inr [])\<rparr> JNull)
      (Some ''Hi'') \<lparr>messages = None\<rparr> []))) \<le>
   2 * length (filter (\<lambda>m. role m = ''user'') (history (fst (fst (app_run (uvicorn_transport \<lparr>llm = (\<lambda>_. Inr ''Hello!''), rank = (\<lambda>_. Inr [])\<rparr> JNull)
      (Some ''Hi'') \<lparr>messages = None\<rparr> [])))))"
proof -
  let ?t = "uvicorn_transport \<lparr>llm = (\<lambda>_. Inr ''Hello!''), rank = (\<lambda>_. Inr [])\<rparr> JNull"
  let ?r = "app_run ?t (Some ''Hi'') \<lparr>messages = None\<rparr> []"
  have "?r = ((fst (fst ?r), snd (fst ?r)), snd ?r)" by simp
  then have "reachable ?t (fst (fst ?r)) (snd ?r)" by (rule reachable.run [OF reachable.fresh])
  then show ?thesis by (rule session_llm_calls_bounded)
qed

end
